theory Spec2Isabelle
  imports Complex_Main "HOL-Library.AList"
begin

section \<open>Configuration schema (config.py)\<close>

text \<open>
  The pydantic models of \<^verbatim>\<open>config.py\<close>, one record each. Three of them have a field
  \<^verbatim>\<open>enabled\<close>; the selectors are told apart by their qualified names.
\<close>

record S3Config =
  endpoint :: string
  bucket_name :: string
  region :: string
  enabled :: bool

record DatabaseConfig =
  enabled :: bool
  container_name :: string
  db_user :: string
  dump_filename :: string

record TelegramConfig =
  enabled :: bool
  chat_id :: string

record BackupConfig =
  s3 :: S3Config
  database :: DatabaseConfig
  telegram :: TelegramConfig
  targets :: "string list"

record Config =
  backup :: BackupConfig

section \<open>Exceptions\<close>

text \<open>
  What a Python call can raise, as far as the handlers of the program tell the classes
  apart. \<open>SystemExit\<close> is what \<^verbatim>\<open>sys.exit\<close> raises: it derives from
  \<^verbatim>\<open>BaseException\<close> only, so a clause \<^verbatim>\<open>except Exception\<close> does not catch it.
  \<open>CalledProcessError\<close> is the subclass of \<^verbatim>\<open>Exception\<close> that
  \<^verbatim>\<open>subprocess.run(check=True)\<close> raises on a non-zero exit status, and
  \<open>Exception\<close> stands for every other subclass of \<^verbatim>\<open>Exception\<close>. The string is
  \<^verbatim>\<open>str(e)\<close>.
\<close>

datatype exc = SystemExit int | CalledProcessError string | Exception string

fun is_Exception :: "exc \<Rightarrow> bool" where
  "is_Exception (SystemExit c) = False"
| "is_Exception (CalledProcessError m) = True"
| "is_Exception (Exception m) = True"

fun str :: "exc \<Rightarrow> string" where
  "str (SystemExit c) = []"
| "str (CalledProcessError m) = m"
| "str (Exception m) = m"

type_synonym 'a result = "exc + 'a"

section \<open>The file system\<close>

text \<open>
  A POSIX file system without symbolic links and without permissions: a table from
  canonical paths (the list of components below the root) to nodes. The root \<open>[]\<close> is
  always a directory. A regular file carries its content.
\<close>

datatype node = Dir | Regular string

type_synonym path = "string list"
type_synonym filesystem = "(path \<times> node) list"

definition node_at :: "filesystem \<Rightarrow> path \<Rightarrow> node option" where
  "node_at t p = (if p = [] then Some Dir else map_of t p)"

definition is_dir :: "filesystem \<Rightarrow> path \<Rightarrow> bool" where
  "is_dir t p = (node_at t p = Some Dir)"

fun is_file :: "node option \<Rightarrow> bool" where
  "is_file (Some (Regular c)) = True"
| "is_file (Some Dir) = False"
| "is_file None = False"

text \<open>\<^verbatim>\<open>s.split('/')\<close>: the components of a path string.\<close>

fun split_path :: "string \<Rightarrow> string list" where
  "split_path [] = [[]]"
| "split_path (c # cs) =
     (if c = CHR ''/'' then [] # split_path cs
      else (case split_path cs of
              [] \<Rightarrow> [[c]]
            | x # xs \<Rightarrow> (c # x) # xs))"

datatype errno = ENOENT | ENOTDIR | EISDIR | EEXIST

text \<open>
  Path resolution as the kernel does it: every directory that is passed through has to
  exist and be a directory; empty components and \<^verbatim>\<open>.\<close> stay, \<^verbatim>\<open>..\<close> goes to the
  parent. The last component need not exist.
\<close>

fun walk :: "filesystem \<Rightarrow> path \<Rightarrow> string list \<Rightarrow> errno + path" where
  "walk t cur [] = Inr cur"
| "walk t cur (c # cs) =
     (if \<not> is_dir t cur then Inl (if node_at t cur = None then ENOENT else ENOTDIR)
      else if c = [] \<or> c = ''.'' then walk t cur cs
      else if c = ''..'' then walk t (butlast cur) cs
      else walk t (cur @ [c]) cs)"

definition resolve :: "filesystem \<Rightarrow> path \<Rightarrow> string \<Rightarrow> errno + path" where
  "resolve t wd s =
     (if s = [] then Inl ENOENT
      else walk t (if hd s = CHR ''/'' then [] else wd) (split_path s))"

text \<open>
  \<^verbatim>\<open>os.makedirs(name, exist_ok=True)\<close> on the components of the name: missing
  directories are created on the way; the result is the error, if any, and the file
  system with what was created before it.
\<close>

fun mkdirs :: "filesystem \<Rightarrow> path \<Rightarrow> string list \<Rightarrow> errno option \<times> filesystem" where
  "mkdirs t cur [] =
     (if is_dir t cur then (None, t)
      else (Some (if node_at t cur = None then ENOENT else EEXIST), t))"
| "mkdirs t cur (c # cs) =
     (if \<not> is_dir t cur then (Some (if node_at t cur = None then ENOENT else ENOTDIR), t)
      else if c = [] \<or> c = ''.'' then mkdirs t cur cs
      else if c = ''..'' then mkdirs t (butlast cur) cs
      else (case node_at t (cur @ [c]) of
              None \<Rightarrow> mkdirs (AList.update (cur @ [c]) Dir t) (cur @ [c]) cs
            | Some n \<Rightarrow> mkdirs t (cur @ [c]) cs))"

section \<open>The world outside the process\<close>

text \<open>
  Everything the program acts on: the file system and working directory, and one
  history per kind of effect (lines printed, commands run, members added to the archive,
  objects uploaded, messages posted), each in the order of the calls.
\<close>

record s3_upload =
  up_endpoint :: string
  up_region :: string
  up_access_key_id :: "string option"
  up_secret_access_key :: "string option"
  up_path :: string
  up_bucket :: string
  up_key :: string

record http_post =
  post_url :: string
  post_chat_id :: string
  post_text :: string
  post_parse_mode :: string

record world =
  fs :: filesystem
  cwd :: path
  stdout :: "string list"
  commands :: "string list list"
  tar_members :: "(string \<times> string) list"
  uploads :: "s3_upload list"
  posts :: "http_post list"

text \<open>
  What the collaborators of the program answer in one run: the environment variables,
  the clock, the YAML and pydantic parse of the configuration text, the dump command,
  the tar writer, the object store client and the HTTP call. An error is the text of
  the exception raised, \<open>None\<close> is success.
\<close>

datatype dump_outcome = Completed string | NonZeroExit string string | SpawnError string

record datetime =
  year :: nat
  month :: nat
  day :: nat
  hour :: nat
  minute :: nat
  second :: nat

record extern =
  environ :: "string \<Rightarrow> string option"
  now :: datetime
  parse_config :: "string \<Rightarrow> string + Config"
  mysqldump :: dump_outcome
  tar_add_error :: "string \<Rightarrow> string option"
  tar_close_error :: "string option"
  archive_bytes :: string
  client_error :: "string option"
  upload_error :: "string option"
  post_error :: "string option"

definition print :: "string \<Rightarrow> world \<Rightarrow> world" where
  "print s w = w\<lparr>stdout := stdout w @ [s]\<rparr>"

subsection \<open>The os module\<close>

definition quoted :: "string \<Rightarrow> string" where
  "quoted s = [CHR 0x27] @ s @ [CHR 0x27]"

fun strerror :: "errno \<Rightarrow> string" where
  "strerror ENOENT = ''[Errno 2] No such file or directory: ''"
| "strerror ENOTDIR = ''[Errno 20] Not a directory: ''"
| "strerror EISDIR = ''[Errno 21] Is a directory: ''"
| "strerror EEXIST = ''[Errno 17] File exists: ''"

definition os_error :: "errno \<Rightarrow> string \<Rightarrow> exc" where
  "os_error e s = Exception (strerror e @ quoted s)"

text \<open>\<^verbatim>\<open>os.path.join(a, b)\<close> of posixpath.\<close>

definition os_path_join :: "string \<Rightarrow> string \<Rightarrow> string" where
  "os_path_join a b =
     (if b \<noteq> [] \<and> hd b = CHR ''/'' then b
      else if a = [] \<or> last a = CHR ''/'' then a @ b
      else a @ ''/'' @ b)"

text \<open>\<^verbatim>\<open>os.path.basename(p)\<close>: what follows the last slash.\<close>

definition os_path_basename :: "string \<Rightarrow> string" where
  "os_path_basename p = last (split_path p)"

definition os_path_exists :: "string \<Rightarrow> world \<Rightarrow> bool" where
  "os_path_exists s w =
     (case resolve (fs w) (cwd w) s of
        Inl e \<Rightarrow> False
      | Inr p \<Rightarrow> node_at (fs w) p \<noteq> None)"

definition os_makedirs :: "string \<Rightarrow> world \<Rightarrow> unit result \<times> world" where
  "os_makedirs s w =
     (if s = [] then (Inl (os_error ENOENT s), w)
      else (case mkdirs (fs w) (if hd s = CHR ''/'' then [] else cwd w) (split_path s) of
              (Some e, t) \<Rightarrow> (Inl (os_error e s), w\<lparr>fs := t\<rparr>)
            | (None, t) \<Rightarrow> (Inr (), w\<lparr>fs := t\<rparr>)))"

text \<open>
  \<^verbatim>\<open>open(s, "w")\<close>: the file is created or truncated; the result is the canonical path
  of the file, which stands for the file object.
\<close>

definition open_w :: "string \<Rightarrow> world \<Rightarrow> path result \<times> world" where
  "open_w s w =
     (case resolve (fs w) (cwd w) s of
        Inl e \<Rightarrow> (Inl (os_error e s), w)
      | Inr p \<Rightarrow>
         (case node_at (fs w) p of
            Some Dir \<Rightarrow> (Inl (os_error EISDIR s), w)
          | Some (Regular c) \<Rightarrow> (Inr p, w\<lparr>fs := AList.update p (Regular []) (fs w)\<rparr>)
          | None \<Rightarrow> (Inr p, w\<lparr>fs := AList.update p (Regular []) (fs w)\<rparr>)))"

text \<open>Writing to an open file appends to its content.\<close>

definition f_write :: "path \<Rightarrow> string \<Rightarrow> world \<Rightarrow> world" where
  "f_write p s w =
     (case node_at (fs w) p of
        Some (Regular c) \<Rightarrow> w\<lparr>fs := AList.update p (Regular (c @ s)) (fs w)\<rparr>
      | Some Dir \<Rightarrow> w
      | None \<Rightarrow> w)"

text \<open>\<^verbatim>\<open>open(s, "r")\<close> and reading the whole file.\<close>

definition read_file :: "string \<Rightarrow> world \<Rightarrow> string result" where
  "read_file s w =
     (case resolve (fs w) (cwd w) s of
        Inl e \<Rightarrow> Inl (os_error e s)
      | Inr p \<Rightarrow>
         (case node_at (fs w) p of
            Some Dir \<Rightarrow> Inl (os_error EISDIR s)
          | Some (Regular c) \<Rightarrow> Inr c
          | None \<Rightarrow> Inl (os_error ENOENT s)))"

text \<open>\<^verbatim>\<open>os.remove(s)\<close> deletes a regular file and raises on everything else.\<close>

definition os_remove :: "string \<Rightarrow> world \<Rightarrow> unit result \<times> world" where
  "os_remove s w =
     (case resolve (fs w) (cwd w) s of
        Inl e \<Rightarrow> (Inl (os_error e s), w)
      | Inr p \<Rightarrow>
         (case node_at (fs w) p of
            Some Dir \<Rightarrow> (Inl (os_error EISDIR s), w)
          | Some (Regular c) \<Rightarrow> (Inr (), w\<lparr>fs := AList.delete p (fs w)\<rparr>)
          | None \<Rightarrow> (Inl (os_error ENOENT s), w)))"

text \<open>\<^verbatim>\<open>os.listdir(s)\<close>: the names of the entries of a directory.\<close>

definition children :: "filesystem \<Rightarrow> path \<Rightarrow> string list" where
  "children t d = remdups (map last (filter (\<lambda>p. p \<noteq> [] \<and> butlast p = d) (map fst t)))"

definition os_listdir :: "string \<Rightarrow> world \<Rightarrow> string list result" where
  "os_listdir s w =
     (case resolve (fs w) (cwd w) s of
        Inl e \<Rightarrow> Inl (os_error e s)
      | Inr p \<Rightarrow>
         (case node_at (fs w) p of
            Some Dir \<Rightarrow> Inr (children (fs w) p)
          | Some (Regular c) \<Rightarrow> Inl (os_error ENOTDIR s)
          | None \<Rightarrow> Inl (os_error ENOENT s)))"

text \<open>
  \<^verbatim>\<open>os.path.getsize(s)\<close>: the length of a regular file; for a directory the size of
  its own block.
\<close>

definition os_path_getsize :: "string \<Rightarrow> world \<Rightarrow> nat result" where
  "os_path_getsize s w =
     (case resolve (fs w) (cwd w) s of
        Inl e \<Rightarrow> Inl (os_error e s)
      | Inr p \<Rightarrow>
         (case node_at (fs w) p of
            Some Dir \<Rightarrow> Inr 4096
          | Some (Regular c) \<Rightarrow> Inr (length c)
          | None \<Rightarrow> Inl (os_error ENOENT s)))"

section \<open>The notifier (notifier.py)\<close>

text \<open>
  Python strings are modelled as byte strings in UTF-8: the pictographs of the message
  templates are the constants below.
\<close>

definition check_mark :: string where
  "check_mark = [CHR 0xE2, CHR 0x9C, CHR 0x85]"

definition package_sign :: string where
  "package_sign = [CHR 0xF0, CHR 0x9F, CHR 0x93, CHR 0xA6]"

definition floppy_disk :: string where
  "floppy_disk = [CHR 0xF0, CHR 0x9F, CHR 0x92, CHR 0xBE]"

definition cloud_sign :: string where
  "cloud_sign = [CHR 0xE2, CHR 0x98, CHR 0x81, CHR 0xEF, CHR 0xB8, CHR 0x8F]"

definition cross_mark :: string where
  "cross_mark = [CHR 0xE2, CHR 0x9D, CHR 0x8C]"

definition warning_sign :: string where
  "warning_sign = [CHR 0xE2, CHR 0x9A, CHR 0xA0, CHR 0xEF, CHR 0xB8, CHR 0x8F]"

definition newline :: string where
  "newline = [CHR 0x0A]"

definition digit :: "nat \<Rightarrow> char" where
  "digit n = ''0123456789'' ! (n mod 10)"

fun show_nat :: "nat \<Rightarrow> string" where
  "show_nat n = (if n < 10 then [digit n] else show_nat (n div 10) @ [digit n])"

declare show_nat.simps [simp del]

text \<open>
  The format \<^verbatim>\<open>{x:.2f}\<close> for a size \<open>x \<ge> 0\<close>: two decimals, the nearest value, a
  tie to the even one. A size is a byte count over \<open>2^20\<close> (see \<open>create_archive\<close>), which
  a float holds exactly, so the rational number is the value that Python formats.
\<close>

definition round_half_even :: "rat \<Rightarrow> int" where
  "round_half_even x =
     (let f = \<lfloor>x\<rfloor>; d = x - of_int f in
      if d < 1 / 2 then f
      else if 1 / 2 < d then f + 1
      else if even f then f else f + 1)"

definition format_2f :: "rat \<Rightarrow> string" where
  "format_2f x =
     (let k = nat (round_half_even (x * 100)) in
      show_nat (k div 100) @ ''.'' @ [digit (k div 10), digit k])"

record TelegramNotifier =
  config :: TelegramConfig
  token :: "string option"

definition TelegramNotifier_init :: "extern \<Rightarrow> TelegramConfig \<Rightarrow> TelegramNotifier" where
  "TelegramNotifier_init ext cfg =
     \<lparr>config = cfg, token = environ ext ''TELEGRAM_BOT_TOKEN''\<rparr>"

definition should_send :: "TelegramNotifier \<Rightarrow> world \<Rightarrow> bool \<times> world" where
  "should_send self w =
     (if \<not> TelegramConfig.enabled (config self) then (False, w)
      else if token self = None \<or> token self = Some [] then
        (False,
         print ''Warning: Telegram enabled in config, but TELEGRAM_BOT_TOKEN is missing.'' w)
      else (True, w))"

text \<open>
  \<^verbatim>\<open>_send\<close>: one POST; whatever it raises is caught and printed, so the call always
  returns. \<open>posts\<close> records the call, delivered or not.
\<close>

definition send :: "extern \<Rightarrow> TelegramNotifier \<Rightarrow> string \<Rightarrow> world \<Rightarrow> unit result \<times> world" where
  "send ext self text w =
     (let url = ''https://api.telegram.org/bot''
                  @ (case token self of None \<Rightarrow> ''None'' | Some t \<Rightarrow> t) @ ''/sendMessage'';
          payload = \<lparr>post_url = url, post_chat_id = chat_id (config self),
                     post_text = text, post_parse_mode = ''HTML''\<rparr>;
          w1 = w\<lparr>posts := posts w @ [payload]\<rparr>
      in (case post_error ext of
            None \<Rightarrow> (Inr (), print ''Telegram: Notification sent.'' w1)
          | Some e \<Rightarrow> (Inr (), print (''Telegram Error: Failed to send message. '' @ e) w1)))"

definition success_message :: "string \<Rightarrow> rat \<Rightarrow> string" where
  "success_message archive_name file_size_mb =
     check_mark @ '' <b>Backup Successful!</b>'' @ newline @ newline
     @ package_sign @ '' <b>File:</b> '' @ archive_name @ newline
     @ floppy_disk @ '' <b>Size:</b> '' @ format_2f file_size_mb @ '' MB'' @ newline
     @ cloud_sign @ '' <b>Storage:</b> Cloudflare R2''"

definition error_message_text :: "string \<Rightarrow> string" where
  "error_message_text error_message =
     cross_mark @ '' <b>Backup Failed!</b>'' @ newline @ newline
     @ warning_sign @ '' <b>Error:</b>'' @ newline @ ''<pre>'' @ error_message @ ''</pre>''"

definition send_success ::
  "extern \<Rightarrow> TelegramNotifier \<Rightarrow> string \<Rightarrow> rat \<Rightarrow> world \<Rightarrow> unit result \<times> world" where
  "send_success ext self archive_name file_size_mb w =
     (case should_send self w of
        (False, w1) \<Rightarrow> (Inr (), w1)
      | (True, w1) \<Rightarrow> send ext self (success_message archive_name file_size_mb) w1)"

definition send_error ::
  "extern \<Rightarrow> TelegramNotifier \<Rightarrow> string \<Rightarrow> world \<Rightarrow> unit result \<times> world" where
  "send_error ext self error_message w =
     (case should_send self w of
        (False, w1) \<Rightarrow> (Inr (), w1)
      | (True, w1) \<Rightarrow> send ext self (error_message_text error_message) w1)"

section \<open>The backup pipeline (backup.py)\<close>

definition CONFIG_PATH :: string where
  "CONFIG_PATH = ''/app/config.yaml''"

definition MOUNT_ROOT :: string where
  "MOUNT_ROOT = ''/host_data''"

definition TEMP_DIR :: string where
  "TEMP_DIR = ''/tmp/backup''"

record File =
  path :: string
  name :: string
  size_mb :: rat

record Backuper =
  temp_dir :: string
  mount_root :: string
  config :: BackupConfig
  notifier :: TelegramNotifier

text \<open>Sequencing: an exception of the first computation skips the second.\<close>

definition and_then ::
  "'a result \<times> world \<Rightarrow> ('a \<Rightarrow> world \<Rightarrow> 'b result \<times> world) \<Rightarrow> 'b result \<times> world" where
  "and_then rw f = (case rw of (Inl e, w) \<Rightarrow> (Inl e, w) | (Inr a, w) \<Rightarrow> f a w)"

text \<open>
  A \<^verbatim>\<open>finally\<close> clause: it runs after the block whatever the block did; when it raises,
  its exception replaces the outcome of the block, otherwise that outcome stands.
\<close>

definition try_finally ::
  "'a result \<times> world \<Rightarrow> (world \<Rightarrow> unit result \<times> world) \<Rightarrow> 'a result \<times> world" where
  "try_finally rw fin =
     (case fin (snd rw) of
        (Inl e, w) \<Rightarrow> (Inl e, w)
      | (Inr u, w) \<Rightarrow> (fst rw, w))"

definition load_config :: "extern \<Rightarrow> string \<Rightarrow> world \<Rightarrow> Config result \<times> world" where
  "load_config ext config_path w =
     (if \<not> os_path_exists config_path w then
        (Inl (SystemExit 1), print (''Error: Config not found at '' @ config_path) w)
      else (case read_file config_path w of
              Inl e \<Rightarrow> (Inl e, w)
            | Inr text \<Rightarrow>
               (case parse_config ext text of
                  Inl m \<Rightarrow> (Inl (Exception m), w)
                | Inr c \<Rightarrow> (Inr c, w))))"

text \<open>
  The overrides of the constructor. \<^verbatim>\<open>if os.environ.get(X):\<close> holds when the variable
  is set to a non-empty string.
\<close>

definition apply_overrides :: "extern \<Rightarrow> BackupConfig \<Rightarrow> BackupConfig" where
  "apply_overrides ext c0 =
     (let c1 = (case environ ext ''S3_ENDPOINT'' of
                  None \<Rightarrow> c0
                | Some v \<Rightarrow> if v = [] then c0 else c0\<lparr>s3 := (s3 c0)\<lparr>endpoint := v\<rparr>\<rparr>);
          c2 = (case environ ext ''S3_BUCKET_NAME'' of
                  None \<Rightarrow> c1
                | Some v \<Rightarrow> if v = [] then c1 else c1\<lparr>s3 := (s3 c1)\<lparr>bucket_name := v\<rparr>\<rparr>);
          c3 = (case environ ext ''S3_REGION'' of
                  None \<Rightarrow> c2
                | Some v \<Rightarrow> if v = [] then c2 else c2\<lparr>s3 := (s3 c2)\<lparr>region := v\<rparr>\<rparr>);
          c4 = (case environ ext ''TELEGRAM_CHAT_ID'' of
                  None \<Rightarrow> c3
                | Some v \<Rightarrow> if v = [] then c3 else c3\<lparr>telegram := (telegram c3)\<lparr>chat_id := v\<rparr>\<rparr>);
          c5 = (case environ ext ''DB_HOST'' of
                  None \<Rightarrow> c4
                | Some v \<Rightarrow>
                   if v = [] then c4 else c4\<lparr>database := (database c4)\<lparr>container_name := v\<rparr>\<rparr>)
      in c5)"

definition Backuper_init ::
  "extern \<Rightarrow> string \<Rightarrow> string \<Rightarrow> string \<Rightarrow> world \<Rightarrow> Backuper result \<times> world" where
  "Backuper_init ext config_path tmp mnt w =
     and_then (load_config ext config_path w) (\<lambda>full_config w1.
       (let c = apply_overrides ext (backup full_config) in
        (Inr \<lparr>temp_dir = tmp, mount_root = mnt, config = c,
              notifier = TelegramNotifier_init ext (telegram c)\<rparr>, w1)))"

subsection \<open>Dump stage\<close>

definition auth_content :: "extern \<Rightarrow> DatabaseConfig \<Rightarrow> string" where
  "auth_content ext db_config =
     ''[client]'' @ newline
     @ ''host='' @ container_name db_config @ newline
     @ ''user='' @ db_user db_config @ newline
     @ ''password='' @ [CHR 0x22]
     @ (case environ ext ''DB_PASSWORD'' of None \<Rightarrow> ''None'' | Some p \<Rightarrow> p)
     @ [CHR 0x22] @ newline"

text \<open>
  \<^verbatim>\<open>subprocess.run(cmd, stdout=f, check=True)\<close>: the command writes to the open file;
  a non-zero exit status raises \<^verbatim>\<open>CalledProcessError\<close>, a command that cannot be
  started raises an \<^verbatim>\<open>OSError\<close>.
\<close>

definition subprocess_run ::
  "extern \<Rightarrow> string list \<Rightarrow> path \<Rightarrow> world \<Rightarrow> unit result \<times> world" where
  "subprocess_run ext cmd f w =
     (let w1 = w\<lparr>commands := commands w @ [cmd]\<rparr> in
      case mysqldump ext of
        Completed out \<Rightarrow> (Inr (), f_write f out w1)
      | NonZeroExit out m \<Rightarrow> (Inl (CalledProcessError m), f_write f out w1)
      | SpawnError m \<Rightarrow> (Inl (Exception m), w1))"

definition dump_try ::
  "extern \<Rightarrow> string \<Rightarrow> string list \<Rightarrow> world \<Rightarrow> string option result \<times> world" where
  "dump_try ext dump_file cmd w =
     and_then (open_w dump_file w) (\<lambda>f w1.
     and_then (subprocess_run ext cmd f w1) (\<lambda>u w2.
       (Inr (Some dump_file), print (''MySQL: Dump created at '' @ dump_file) w2)))"

definition dump_except ::
  "string option result \<times> world \<Rightarrow> string option result \<times> world" where
  "dump_except rw =
     (case rw of
        (Inl (CalledProcessError m), w) \<Rightarrow> (Inl (SystemExit 1), print (''MySQL Error: '' @ m) w)
      | (Inl (SystemExit c), w) \<Rightarrow> (Inl (SystemExit c), w)
      | (Inl (Exception m), w) \<Rightarrow> (Inl (Exception m), w)
      | (Inr a, w) \<Rightarrow> (Inr a, w))"

definition dump_finally :: "string \<Rightarrow> world \<Rightarrow> unit result \<times> world" where
  "dump_finally auth_config_path w =
     (if os_path_exists auth_config_path w then os_remove auth_config_path w else (Inr (), w))"

definition create_db_dump ::
  "extern \<Rightarrow> Backuper \<Rightarrow> DatabaseConfig \<Rightarrow> world \<Rightarrow> string option result \<times> world" where
  "create_db_dump ext self db_config w =
     (if \<not> DatabaseConfig.enabled db_config then (Inr None, w)
      else
        and_then (os_makedirs (temp_dir self) (print ''MySQL: Creating dump...'' w)) (\<lambda>u w1.
          (let dump_file = os_path_join (temp_dir self) (dump_filename db_config);
               auth_config_path = os_path_join (temp_dir self) ''mysql_auth.cnf'';
               cmd = [''mysqldump'', ''--defaults-extra-file='' @ auth_config_path,
                      ''--all-databases'', ''--skip-ssl'', ''--no-tablespaces'']
           in and_then (open_w auth_config_path w1) (\<lambda>f w2.
                try_finally (dump_except (dump_try ext dump_file cmd
                                            (f_write f (auth_content ext db_config) w2)))
                            (dump_finally auth_config_path)))))"

subsection \<open>Archive stage\<close>

text \<open>\<^verbatim>\<open>s.lstrip(chars)\<close>: the string from its first character that is not in \<open>chars\<close>.\<close>

fun lstrip :: "string \<Rightarrow> string \<Rightarrow> string" where
  "lstrip chars [] = []"
| "lstrip chars (c # cs) = (if c \<in> set chars then lstrip chars cs else c # cs)"

definition pad2 :: "nat \<Rightarrow> string" where
  "pad2 n = (if n < 10 then ''0'' @ show_nat n else show_nat n)"

definition pad4 :: "nat \<Rightarrow> string" where
  "pad4 n = replicate (4 - length (show_nat n)) (CHR ''0'') @ show_nat n"

text \<open>\<^verbatim>\<open>strftime("%Y-%m-%d_%H-%M-%S")\<close>.\<close>

definition strftime :: "datetime \<Rightarrow> string" where
  "strftime d =
     pad4 (year d) @ ''-'' @ pad2 (month d) @ ''-'' @ pad2 (day d) @ ''_''
     @ pad2 (hour d) @ ''-'' @ pad2 (minute d) @ ''-'' @ pad2 (second d)"

text \<open>
  \<^verbatim>\<open>os.getcwd()\<close> and \<^verbatim>\<open>os.path.abspath(path)\<close>: the path is joined to the
  working directory and normalised as text, without looking at the file system; empty
  components and \<^verbatim>\<open>.\<close> go, \<^verbatim>\<open>..\<close> removes the component before it, and exactly
  two leading slashes are kept.
\<close>

fun join_slash :: "string list \<Rightarrow> string" where
  "join_slash [] = []"
| "join_slash [c] = c"
| "join_slash (c # d # cs) = c @ ''/'' @ join_slash (d # cs)"

definition os_getcwd :: "world \<Rightarrow> string" where
  "os_getcwd w = ''/'' @ join_slash (cwd w)"

fun normpath_comps :: "string list \<Rightarrow> string list \<Rightarrow> string list" where
  "normpath_comps new_comps [] = new_comps"
| "normpath_comps new_comps (c # cs) =
     (if c = [] \<or> c = ''.'' then normpath_comps new_comps cs
      else if c = ''..'' then normpath_comps (butlast new_comps) cs
      else normpath_comps (new_comps @ [c]) cs)"

definition os_path_abspath :: "string \<Rightarrow> world \<Rightarrow> string" where
  "os_path_abspath s w =
     (let p = (if s \<noteq> [] \<and> hd s = CHR ''/'' then s else os_path_join (os_getcwd w) s);
          initial_slashes = (if take 2 p = ''//'' \<and> take 3 p \<noteq> ''///'' then 2 else 1)
      in replicate initial_slashes (CHR ''/'') @ join_slash (normpath_comps [] (split_path p)))"

text \<open>
  The archive being written (\<^verbatim>\<open>tarfile.open(archive_path, "w:gz")\<close>): the absolute
  name that the \<^verbatim>\<open>TarFile\<close> object keeps, and the open file.
\<close>

record TarFile =
  tar_name :: string
  fileobj :: path

definition tarfile_open :: "string \<Rightarrow> world \<Rightarrow> TarFile result \<times> world" where
  "tarfile_open nm w =
     and_then (open_w nm w) (\<lambda>f w1. (Inr \<lparr>tar_name = os_path_abspath nm w, fileobj = f\<rparr>, w1))"

text \<open>
  \<^verbatim>\<open>tar.add(name, arcname=arcname)\<close>, as \<^verbatim>\<open>tarfile\<close> does it: the archive itself is
  passed over without a word; a name that does not exist raises, as does a failure to
  read or write; otherwise the member is stored under \<^verbatim>\<open>arcname.lstrip("/")\<close>
  (\<^verbatim>\<open>gettarinfo\<close> makes absolute names relative). \<open>tar_members\<close> records the name
  added and the name it is stored under; a directory brings what it contains, below
  that name.
\<close>

definition tar_add ::
  "extern \<Rightarrow> TarFile \<Rightarrow> string \<Rightarrow> string \<Rightarrow> world \<Rightarrow> unit result \<times> world" where
  "tar_add ext tar nm arcname w =
     (if os_path_abspath nm w = tar_name tar then (Inr (), w)
      else if \<not> os_path_exists nm w then (Inl (os_error ENOENT nm), w)
      else (case tar_add_error ext nm of
              Some m \<Rightarrow> (Inl (Exception m), w)
            | None \<Rightarrow>
               (Inr (), w\<lparr>tar_members := tar_members w @ [(nm, lstrip ''/'' arcname)]\<rparr>)))"

fun add_targets ::
  "extern \<Rightarrow> TarFile \<Rightarrow> string \<Rightarrow> string list \<Rightarrow> world \<Rightarrow> unit result \<times> world" where
  "add_targets ext tar mnt [] w = (Inr (), w)"
| "add_targets ext tar mnt (target # ts) w =
     (let full_path = os_path_join mnt (lstrip ''./'' target) in
      if os_path_exists full_path w then
        and_then (tar_add ext tar full_path target (print (''  Adding: '' @ target) w))
          (\<lambda>u w1. add_targets ext tar mnt ts w1)
      else add_targets ext tar mnt ts (print (''  Warning: Path not found '' @ full_path) w))"

definition add_dump :: "extern \<Rightarrow> TarFile \<Rightarrow> string option \<Rightarrow> world \<Rightarrow> unit result \<times> world" where
  "add_dump ext tar dump_file w =
     (case dump_file of
        None \<Rightarrow> (Inr (), w)
      | Some d \<Rightarrow> if d = [] then (Inr (), w) else tar_add ext tar d (os_path_basename d) w)"

text \<open>
  Leaving the \<^verbatim>\<open>with\<close> block without an exception closes the archive, which writes
  what is left of it.
\<close>

definition tar_close :: "extern \<Rightarrow> TarFile \<Rightarrow> world \<Rightarrow> unit result \<times> world" where
  "tar_close ext tar w =
     (case tar_close_error ext of
        Some m \<Rightarrow> (Inl (Exception m), w)
      | None \<Rightarrow> (Inr (), f_write (fileobj tar) (archive_bytes ext) w))"

definition create_archive ::
  "extern \<Rightarrow> Backuper \<Rightarrow> string list \<Rightarrow> string option \<Rightarrow> world \<Rightarrow> File result \<times> world" where
  "create_archive ext self tgts dump_file w =
     (let timestamp = strftime (now ext);
          archive_name = ''backup_'' @ timestamp @ ''.tar.gz'';
          archive_path = os_path_join (temp_dir self) archive_name
      in and_then (tarfile_open archive_path
                     (print (''Archiving: Creating '' @ archive_name @ ''...'') w))
           (\<lambda>tar w1.
         and_then (add_dump ext tar dump_file w1) (\<lambda>u w2.
         and_then (add_targets ext tar (mount_root self) tgts w2) (\<lambda>u w3.
         and_then (tar_close ext tar w3) (\<lambda>u w4.
           (case os_path_getsize archive_path w4 of
              Inl e \<Rightarrow> (Inl e, w4)
            | Inr n \<Rightarrow>
               (Inr \<lparr>path = archive_path, name = archive_name,
                     size_mb = of_nat n / (1024 * 1024)\<rparr>, w4)))))))"

subsection \<open>Upload stage\<close>

definition upload_to_s3 :: "extern \<Rightarrow> File \<Rightarrow> S3Config \<Rightarrow> world \<Rightarrow> unit result \<times> world" where
  "upload_to_s3 ext file s3_config w =
     (let w0 = print (''S3: Uploading to bucket: '' @ bucket_name s3_config) w in
      if \<not> S3Config.enabled s3_config then
        (Inr (), print ''S3: Upload skipped (disabled in config).'' w0)
      else (case client_error ext of
              Some m \<Rightarrow> (Inl (Exception m), w0)
            | None \<Rightarrow>
               (let call = \<lparr>up_endpoint = endpoint s3_config, up_region = region s3_config,
                            up_access_key_id = environ ext ''AWS_ACCESS_KEY_ID'',
                            up_secret_access_key = environ ext ''AWS_SECRET_ACCESS_KEY'',
                            up_path = path file, up_bucket = bucket_name s3_config,
                            up_key = name file\<rparr>;
                    w1 = w0\<lparr>uploads := uploads w0 @ [call]\<rparr>
                in (case upload_error ext of
                      None \<Rightarrow> (Inr (), print ''S3: Upload successful!'' w1)
                    | Some m \<Rightarrow> (Inl (SystemExit 1), print (''S3 Error: '' @ m) w1)))))"

subsection \<open>Cleanup\<close>

text \<open>The loop of \<^verbatim>\<open>_cleanup\<close>: a removal that raises changes nothing and is passed over.\<close>

fun cleanup_loop :: "string \<Rightarrow> string list \<Rightarrow> world \<Rightarrow> world" where
  "cleanup_loop d [] w = w"
| "cleanup_loop d (f # rest) w = cleanup_loop d rest (snd (os_remove (os_path_join d f) w))"

definition cleanup :: "Backuper \<Rightarrow> world \<Rightarrow> unit result \<times> world" where
  "cleanup self w =
     (let w0 = print ''Cleanup: Removing temp files...'' w in
      if os_path_exists (temp_dir self) w0 then
        (case os_listdir (temp_dir self) w0 of
           Inl e \<Rightarrow> (Inl e, w0)
         | Inr names \<Rightarrow> (Inr (), cleanup_loop (temp_dir self) names w0))
      else (Inr (), w0))"

subsection \<open>The orchestrator\<close>

definition run_try :: "extern \<Rightarrow> Backuper \<Rightarrow> world \<Rightarrow> unit result \<times> world" where
  "run_try ext self w =
     and_then (os_makedirs (temp_dir self) w) (\<lambda>u w1.
     and_then (create_db_dump ext self (database (config self)) w1) (\<lambda>dump_file_path w2.
     and_then (create_archive ext self (targets (config self)) dump_file_path w2)
       (\<lambda>archive_file w3.
     and_then (upload_to_s3 ext archive_file (s3 (config self)) w3) (\<lambda>u w4.
       send_success ext (notifier self) (name archive_file) (size_mb archive_file) w4))))"

text \<open>The clause \<^verbatim>\<open>except Exception as e\<close> of \<^verbatim>\<open>Run\<close>.\<close>

definition run_except ::
  "extern \<Rightarrow> Backuper \<Rightarrow> unit result \<times> world \<Rightarrow> unit result \<times> world" where
  "run_except ext self rw =
     (case rw of
        (Inr u, w) \<Rightarrow> (Inr u, w)
      | (Inl e, w) \<Rightarrow>
         if is_Exception e then
           and_then (send_error ext (notifier self) (str e)
                       (print (''CRITICAL ERROR: '' @ str e) w))
             (\<lambda>u w1. (Inl (SystemExit 1), w1))
         else (Inl e, w))"

definition Run :: "extern \<Rightarrow> Backuper \<Rightarrow> world \<Rightarrow> unit result \<times> world" where
  "Run ext self w = try_finally (run_except ext self (run_try ext self w)) (cleanup self)"

definition main :: "extern \<Rightarrow> world \<Rightarrow> unit result \<times> world" where
  "main ext w =
     and_then (Backuper_init ext CONFIG_PATH TEMP_DIR MOUNT_ROOT w) (\<lambda>backuper w1.
     and_then (Run ext backuper w1) (\<lambda>u w2. (Inr (), print ''Done.'' w2)))"

text \<open>
  The exit status of the interpreter: 0 when \<^verbatim>\<open>main\<close> returns, the code of a
  \<^verbatim>\<open>SystemExit\<close>, and 1 after the traceback of any other uncaught exception.
\<close>

fun exit_status :: "unit result \<Rightarrow> int" where
  "exit_status (Inr u) = 0"
| "exit_status (Inl (SystemExit c)) = c"
| "exit_status (Inl (CalledProcessError m)) = 1"
| "exit_status (Inl (Exception m)) = 1"

section \<open>Predicates of the statements\<close>

text \<open>
  The stages of \<^verbatim>\<open>Run\<close> up to the upload, in sequence; the result is the archive
  that the notification reports.
\<close>

definition run_stages :: "extern \<Rightarrow> Backuper \<Rightarrow> world \<Rightarrow> File result \<times> world" where
  "run_stages ext self w =
     and_then (os_makedirs (temp_dir self) w) (\<lambda>u w1.
     and_then (create_db_dump ext self (database (config self)) w1) (\<lambda>dump_file_path w2.
     and_then (create_archive ext self (targets (config self)) dump_file_path w2)
       (\<lambda>archive_file w3.
     and_then (upload_to_s3 ext archive_file (s3 (config self)) w3) (\<lambda>u w4.
       (Inr archive_file, w4)))))"


text \<open>
  A name that a directory entry can have. A world is well formed when every path of its
  table, and its working directory, is made of such names.
\<close>

definition valid_name :: "string \<Rightarrow> bool" where
  "valid_name c = (c \<noteq> [] \<and> c \<noteq> ''.'' \<and> c \<noteq> ''..'' \<and> CHR ''/'' \<notin> set c)"

definition wf_world :: "world \<Rightarrow> bool" where
  "wf_world w = ((\<forall>p \<in> set (map fst (fs w)). \<forall>c \<in> set p. valid_name c)
                 \<and> (\<forall>c \<in> set (cwd w). valid_name c))"

text \<open>
  \<open>fs_step w w'\<close>: from \<open>w\<close> to \<open>w'\<close> the working directory is the same, every directory
  is still a directory, and a well-formed world stays well formed. Every operation of
  the program is such a step.
\<close>

definition fs_step :: "world \<Rightarrow> world \<Rightarrow> bool" where
  "fs_step w w' = (cwd w' = cwd w \<and> (\<forall>q. is_dir (fs w) q \<longrightarrow> is_dir (fs w') q)
                   \<and> (wf_world w \<longrightarrow> wf_world w'))"

text \<open>
  The archive stage in the words of its statements: the name and the path of the
  archive; the place where a target is looked up; whether the loop adds a member for
  it (the place exists and is not the archive itself); the line that the loop prints
  for it; and the member that the dump file gives.
\<close>

definition archive_name :: "extern \<Rightarrow> string" where
  "archive_name ext = ''backup_'' @ strftime (now ext) @ ''.tar.gz''"

definition archive_path :: "extern \<Rightarrow> Backuper \<Rightarrow> string" where
  "archive_path ext self = os_path_join (temp_dir self) (archive_name ext)"





section \<open>Concrete runs\<close>

text \<open>
  A configuration with all stages enabled, and a container whose mount root holds a
  directory \<^verbatim>\<open>site\<close> and a file \<^verbatim>\<open>env\<close>.
\<close>

definition demo_config :: Config where
  "demo_config = \<lparr>backup = \<lparr>
      s3 = \<lparr>endpoint = ''https://r2'', bucket_name = ''A'', region = ''auto'',
            S3Config.enabled = True\<rparr>,
      database = \<lparr>DatabaseConfig.enabled = True, container_name = ''mysql'',
                  db_user = ''admin'', dump_filename = ''dump.sql''\<rparr>,
      telegram = \<lparr>TelegramConfig.enabled = True, chat_id = ''42''\<rparr>,
      targets = [''./site'', ''.env'', ''missing'']\<rparr>\<rparr>"

definition demo_env :: "string \<Rightarrow> string option" where
  "demo_env = [''TELEGRAM_BOT_TOKEN'' \<mapsto> ''tok'', ''DB_PASSWORD'' \<mapsto> ''pw'']"

definition demo_ext :: extern where
  "demo_ext = \<lparr>environ = demo_env,
     now = \<lparr>year = 2024, month = 5, day = 17, hour = 3, minute = 0, second = 9\<rparr>,
     parse_config = (\<lambda>s. Inr demo_config),
     mysqldump = Completed ''SQL'',
     tar_add_error = (\<lambda>s. None), tar_close_error = None, archive_bytes = ''GZ'',
     client_error = None, upload_error = None, post_error = None\<rparr>"

definition demo_world :: world where
  "demo_world = \<lparr>fs = [([''app''], Dir), ([''app'', ''config.yaml''], Regular ''yaml''),
        ([''host_data''], Dir), ([''host_data'', ''site''], Dir),
        ([''host_data'', ''env''], Regular ''x''), ([''tmp''], Dir)],
     cwd = [], stdout = [], commands = [], tar_members = [], uploads = [], posts = []\<rparr>"

definition demo_self :: Backuper where
  "demo_self = \<lparr>temp_dir = TEMP_DIR, mount_root = MOUNT_ROOT, config = backup demo_config,
     notifier = TelegramNotifier_init demo_ext (telegram (backup demo_config))\<rparr>"

text \<open>The same collaborators, with a dump command that exits with status 2.\<close>

definition fail_ext :: extern where
  "fail_ext = demo_ext\<lparr>mysqldump := NonZeroExit [] ''exit status 2''\<rparr>"

text \<open>A backup object whose configuration has the database switched off.\<close>

definition nodb_self :: Backuper where
  "nodb_self = demo_self\<lparr>config := (config demo_self)\<lparr>database :=
      (database (config demo_self))\<lparr>DatabaseConfig.enabled := False\<rparr>\<rparr>\<rparr>"

text \<open>
  The container once the workspace directory exists, the archive that the archive stage
  returns there for an empty target list, and the world it leaves.
\<close>

definition demo_tmp_world :: world where
  "demo_tmp_world = demo_world\<lparr>fs := fs demo_world @ [([''tmp'', ''backup''], Dir)]\<rparr>"

definition demo_archive :: File where
  "demo_archive = \<lparr>path = ''/tmp/backup/backup_2024-05-17_03-00-09.tar.gz'',
     name = ''backup_2024-05-17_03-00-09.tar.gz'', size_mb = 2 / 1048576\<rparr>"

definition demo_archived_world :: world where
  "demo_archived_world = demo_tmp_world\<lparr>
     fs := fs demo_tmp_world
           @ [([''tmp'', ''backup'', ''backup_2024-05-17_03-00-09.tar.gz''], Regular ''GZ'')],
     stdout := [''Archiving: Creating backup_2024-05-17_03-00-09.tar.gz...'']\<rparr>"

text \<open>
  The environment with an override for the bucket, the backup object that the
  constructor builds from it, and an environment where the override is set but empty.
\<close>

definition override_ext :: extern where
  "override_ext = demo_ext\<lparr>environ := demo_env(''S3_BUCKET_NAME'' \<mapsto> ''B'')\<rparr>"

definition override_self :: Backuper where
  "override_self = demo_self\<lparr>config := apply_overrides override_ext (backup demo_config)\<rparr>"

definition empty_override_ext :: extern where
  "empty_override_ext = demo_ext\<lparr>environ := demo_env(''S3_BUCKET_NAME'' \<mapsto> [])\<rparr>"






text \<open>No token in the environment; and a notifier that is switched off.\<close>

definition no_token_ext :: extern where
  "no_token_ext = demo_ext\<lparr>environ := Map.empty\<rparr>"

definition quiet_notifier :: TelegramNotifier where
  "quiet_notifier = TelegramNotifier_init demo_ext \<lparr>TelegramConfig.enabled = False, chat_id = ''42''\<rparr>"

section \<open>Sequencing\<close>

lemma and_then_Inl [simp]: "and_then (Inl e, w) f = (Inl e, w)"
  by (simp add: and_then_def)

lemma and_then_Inr [simp]: "and_then (Inr a, w) f = f a w"
  by (simp add: and_then_def)

lemma and_then_eq_Inr:
  "and_then m f = (Inr b, w') \<longleftrightarrow> (\<exists>a w1. m = (Inr a, w1) \<and> f a w1 = (Inr b, w'))"
  by (cases m; cases "fst m") (auto simp: and_then_def)

section \<open>Paths and the file system\<close>

lemma node_at_update:
  "node_at (AList.update p n t) q = (if q = [] then Some Dir else if q = p then Some n else node_at t q)"
  by (simp add: node_at_def update_conv')

lemma node_at_delete:
  "node_at (AList.delete p t) q = (if q = [] then Some Dir else if q = p then None else node_at t q)"
  by (simp add: node_at_def delete_conv')

lemma walk_mono:
  "(\<And>q. is_dir t q \<Longrightarrow> is_dir t' q) \<Longrightarrow> walk t cur cs = Inr p \<Longrightarrow> walk t' cur cs = Inr p"
  by (induction cs arbitrary: cur) (auto split: if_splits)

lemma resolve_mono:
  "(\<And>q. is_dir t q \<Longrightarrow> is_dir t' q) \<Longrightarrow> resolve t wd s = Inr p \<Longrightarrow> resolve t' wd s = Inr p"
  by (auto simp: resolve_def split: if_splits intro: walk_mono)

lemma walk_append:
  "walk t cur (xs @ ys) = (case walk t cur xs of Inl e \<Rightarrow> Inl e | Inr q \<Rightarrow> walk t q ys)"
  by (induction xs arbitrary: cur) auto

lemma split_path_nonempty [simp]: "split_path s \<noteq> []"
  by (induction s) (auto split: list.splits)

lemma split_path_plain: "CHR ''/'' \<notin> set n \<Longrightarrow> split_path n = [n]"
  by (induction n) auto

lemma split_path_slash:
  "CHR ''/'' \<notin> set n \<Longrightarrow> split_path (s @ CHR ''/'' # n) = split_path s @ [n]"
  by (induction s) (auto simp: split_path_plain split: list.splits)

lemma split_path_no_slash: "c \<in> set (split_path s) \<Longrightarrow> CHR ''/'' \<notin> set c"
  by (induction s arbitrary: c) (auto split: if_splits list.splits)

lemma resolve_join:
  assumes n: "valid_name n" and r: "resolve t wd d = Inr T" and dir: "is_dir t T"
  shows "resolve t wd (os_path_join d n) = Inr (T @ [n])"
proof -
  from n have ns: "CHR ''/'' \<notin> set n" and nn: "n \<noteq> []" "n \<noteq> ''.''" "n \<noteq> ''..''"
    by (auto simp: valid_name_def)
  from r have dn: "d \<noteq> []" by (auto simp: resolve_def split: if_splits)
  let ?start = "if hd d = CHR ''/'' then [] else wd"
  from r dn have w: "walk t ?start (split_path d) = Inr T" by (simp add: resolve_def)
  have step: "walk t T [n] = Inr (T @ [n])" using dir nn by simp
  show ?thesis
  proof (cases "last d = CHR ''/''")
    case True
    with dn obtain d' where d: "d = d' @ ''/''"
      by (metis append_butlast_last_id)
    have sp: "split_path d = split_path d' @ [[]]" unfolding d using split_path_slash[of "[]" d'] by simp
    from w obtain T' where w': "walk t ?start (split_path d') = Inr T'" and e: "walk t T' [[]] = Inr T"
      unfolding sp walk_append by (auto split: sum.splits)
    from e have TT: "T' = T" and "is_dir t T'" by (auto split: if_splits)
    have j: "os_path_join d n = d' @ CHR ''/'' # n" using True dn ns nn d by (cases n) (auto simp: os_path_join_def)
    have hd_eq: "hd (d' @ CHR ''/'' # n) = hd d" unfolding d by (cases d') auto
    show ?thesis unfolding j resolve_def using hd_eq w' TT step
      by (simp add: split_path_slash[OF ns] walk_append)
  next
    case False
    have j: "os_path_join d n = d @ CHR ''/'' # n" using False dn ns nn by (cases n) (auto simp: os_path_join_def)
    have hd_eq: "hd (d @ CHR ''/'' # n) = hd d" using dn by (cases d) auto
    show ?thesis unfolding j resolve_def using hd_eq w step
      by (simp add: split_path_slash[OF ns] walk_append)
  qed
qed

lemma children_iff: "n \<in> set (children t d) \<longleftrightarrow> d @ [n] \<in> fst ` set t"
proof -
  have "n \<in> set (children t d) \<longleftrightarrow> (\<exists>p \<in> fst ` set t. p \<noteq> [] \<and> butlast p = d \<and> last p = n)"
    by (auto simp: children_def)
  also have "\<dots> \<longleftrightarrow> d @ [n] \<in> fst ` set t"
    by (metis butlast_snoc last_snoc snoc_eq_iff_butlast)
  finally show ?thesis .
qed

lemma node_at_children: "node_at t (d @ [n]) \<noteq> None \<Longrightarrow> n \<in> set (children t d)"
  by (auto simp: children_iff node_at_def map_of_eq_None_iff)

lemma fs_step_refl [simp]: "fs_step w w"
  by (simp add: fs_step_def)

lemma fs_step_trans: "fs_step w0 w \<Longrightarrow> fs_step w w' \<Longrightarrow> fs_step w0 w'"
  by (simp add: fs_step_def)

lemma fs_step_same_fs: "fs w' = fs w \<Longrightarrow> cwd w' = cwd w \<Longrightarrow> fs_step w w'"
  by (simp add: fs_step_def wf_world_def)

lemma walk_valid:
  "\<forall>c \<in> set cur. valid_name c \<Longrightarrow> \<forall>c \<in> set cs. CHR ''/'' \<notin> set c \<Longrightarrow> walk t cur cs = Inr p
   \<Longrightarrow> \<forall>c \<in> set p. valid_name c"
proof (induction cs arbitrary: cur)
  case Nil
  then show ?case by simp
next
  case (Cons c cs)
  have tl: "\<forall>x \<in> set cs. CHR ''/'' \<notin> set x" using Cons.prems(2) by simp
  have d: "is_dir t cur" using Cons.prems(3) by (simp split: if_splits)
  show ?case
  proof (cases "c = [] \<or> c = ''.''")
    case True
    with d Cons.prems(3) have "walk t cur cs = Inr p" by auto
    from Cons.IH[OF Cons.prems(1) tl this] show ?thesis .
  next
    case n1: False
    show ?thesis
    proof (cases "c = ''..''")
      case True
      with d n1 Cons.prems(3) have w: "walk t (butlast cur) cs = Inr p" by simp
      have b: "\<forall>x \<in> set (butlast cur). valid_name x"
        using Cons.prems(1) by (meson in_set_butlastD)
      from Cons.IH[OF b tl w] show ?thesis .
    next
      case n2: False
      with d n1 Cons.prems(3) have w: "walk t (cur @ [c]) cs = Inr p" by simp
      have "valid_name c" using n1 n2 Cons.prems(2) by (simp add: valid_name_def)
      then have a: "\<forall>x \<in> set (cur @ [c]). valid_name x" using Cons.prems(1) by simp
      from Cons.IH[OF a tl w] show ?thesis .
    qed
  qed
qed

lemma resolve_valid:
  "wf_world w \<Longrightarrow> resolve (fs w) (cwd w) s = Inr p \<Longrightarrow> \<forall>c \<in> set p. valid_name c"
  unfolding resolve_def wf_world_def
  using split_path_no_slash
  by (auto split: if_splits dest!: walk_valid[rotated 2])

lemma wf_update:
  "wf_world w \<Longrightarrow> \<forall>c \<in> set p. valid_name c \<Longrightarrow> wf_world (w\<lparr>fs := AList.update p n (fs w)\<rparr>)"
  by (auto simp: wf_world_def dom_update)

lemma wf_delete: "wf_world w \<Longrightarrow> wf_world (w\<lparr>fs := AList.delete p (fs w)\<rparr>)"
  using dom_delete_subset[of p "fs w"] by (auto simp: wf_world_def)

lemma is_dir_update_file:
  "node_at t p \<noteq> Some Dir \<Longrightarrow> is_dir (AList.update p (Regular c) t) q = is_dir t q"
  by (auto simp: is_dir_def node_at_def update_conv' delete_conv')

lemma is_dir_delete_file:
  "node_at t p \<noteq> Some Dir \<Longrightarrow> is_dir (AList.delete p t) q = is_dir t q"
  by (auto simp: is_dir_def node_at_def update_conv' delete_conv')

lemma is_dir_update_dir: "is_dir t q \<Longrightarrow> is_dir (AList.update p Dir t) q"
  by (auto simp: is_dir_def node_at_update)

lemma mkdirs_dirs: "mkdirs t cur cs = (e, t') \<Longrightarrow> is_dir t q \<Longrightarrow> is_dir t' q"
  by (induction t cur cs rule: mkdirs.induct)
     (auto split: if_splits option.splits intro: is_dir_update_dir)

lemma mkdirs_valid:
  "mkdirs t cur cs = (e, t') \<Longrightarrow> \<forall>c \<in> set cur. valid_name c \<Longrightarrow> \<forall>c \<in> set cs. CHR ''/'' \<notin> set c
   \<Longrightarrow> \<forall>p \<in> fst ` set t. \<forall>c \<in> set p. valid_name c \<Longrightarrow> \<forall>p \<in> fst ` set t'. \<forall>c \<in> set p. valid_name c"
proof (induction cs arbitrary: t cur)
  case Nil
  from Nil.prems(1) have "t' = t" by (simp split: if_splits)
  with Nil.prems(4) show ?case by simp
next
  case (Cons c cs)
  have tl: "\<forall>x \<in> set cs. CHR ''/'' \<notin> set x" using Cons.prems(3) by simp
  show ?case
  proof (cases "is_dir t cur")
    case False
    with Cons.prems(1) have "t' = t" by simp
    with Cons.prems(4) show ?thesis by simp
  next
    case d: True
    show ?thesis
    proof (cases "c = [] \<or> c = ''.''")
      case True
      with d Cons.prems(1) have m: "mkdirs t cur cs = (e, t')" by auto
      from Cons.IH[OF m Cons.prems(2) tl Cons.prems(4)] show ?thesis .
    next
      case n1: False
      show ?thesis
      proof (cases "c = ''..''")
        case True
        with d n1 Cons.prems(1) have m: "mkdirs t (butlast cur) cs = (e, t')" by simp
        have b: "\<forall>x \<in> set (butlast cur). valid_name x"
          using Cons.prems(2) by (meson in_set_butlastD)
        from Cons.IH[OF m b tl Cons.prems(4)] show ?thesis .
      next
        case n2: False
        have "valid_name c" using n1 n2 Cons.prems(3) by (simp add: valid_name_def)
        then have a: "\<forall>x \<in> set (cur @ [c]). valid_name x" using Cons.prems(2) by simp
        show ?thesis
        proof (cases "node_at t (cur @ [c])")
          case None
          have k: "\<forall>p \<in> fst ` set (AList.update (cur @ [c]) Dir t). \<forall>c \<in> set p. valid_name c"
            using a Cons.prems(4) by (simp add: dom_update)
          from None d n1 n2 Cons.prems(1)
          have m: "mkdirs (AList.update (cur @ [c]) Dir t) (cur @ [c]) cs = (e, t')" by simp
          from Cons.IH[OF m a tl k] show ?thesis .
        next
          case (Some nd)
          from Some d n1 n2 Cons.prems(1) have m: "mkdirs t (cur @ [c]) cs = (e, t')" by simp
          from Cons.IH[OF m a tl Cons.prems(4)] show ?thesis .
        qed
      qed
    qed
  qed
qed

lemma fs_step_makedirs: "fs_step w (snd (os_makedirs s w))"
proof (cases "s = []")
  case True
  then show ?thesis by (simp add: os_makedirs_def)
next
  case False
  let ?start = "if hd s = CHR ''/'' then [] else cwd w"
  obtain e t' where m: "mkdirs (fs w) ?start (split_path s) = (e, t')"
    by (cases "mkdirs (fs w) ?start (split_path s)") auto
  have s: "snd (os_makedirs s w) = w\<lparr>fs := t'\<rparr>"
    by (cases e) (simp_all add: os_makedirs_def False m)
  have sp: "\<forall>c \<in> set (split_path s). CHR ''/'' \<notin> set c"
    using split_path_no_slash by blast
  have wf: "wf_world (w\<lparr>fs := t'\<rparr>)" if w: "wf_world w"
  proof -
    from w have st: "\<forall>c \<in> set ?start. valid_name c" by (simp add: wf_world_def)
    from w have k: "\<forall>p \<in> fst ` set (fs w). \<forall>c \<in> set p. valid_name c" by (simp add: wf_world_def)
    from mkdirs_valid[OF m st sp k] w show ?thesis by (simp add: wf_world_def)
  qed
  show ?thesis unfolding s fs_step_def using mkdirs_dirs[OF m] wf by simp
qed

lemma fs_step_open_w: "fs_step w (snd (open_w s w))"
  by (auto simp: open_w_def fs_step_def is_dir_update_file wf_update resolve_valid
           split: sum.splits option.splits node.splits)

lemma fs_step_f_write: "fs_step w (f_write p s w)"
proof (cases "node_at (fs w) p")
  case None
  then show ?thesis by (simp add: f_write_def)
next
  case (Some n)
  show ?thesis
  proof (cases n)
    case Dir
    with Some show ?thesis by (simp add: f_write_def)
  next
    case (Regular c)
    with Some have "p \<in> fst ` set (fs w)"
      by (auto simp: node_at_def split: if_splits dest: map_of_SomeD intro: rev_image_eqI)
    then have "wf_world w \<Longrightarrow> \<forall>c \<in> set p. valid_name c" by (auto simp: wf_world_def)
    with Some Regular show ?thesis
      by (auto simp: f_write_def fs_step_def is_dir_update_file wf_update)
  qed
qed

lemma fs_step_remove: "fs_step w (snd (os_remove s w))"
  by (auto simp: os_remove_def fs_step_def is_dir_delete_file wf_delete
           split: sum.splits option.splits node.splits)

section \<open>What each stage leaves alone\<close>

lemma snd_and_then:
  "snd (and_then m f) = (case fst m of Inl e \<Rightarrow> snd m | Inr a \<Rightarrow> snd (f a (snd m)))"
  by (cases m; cases "fst m") (auto simp: and_then_def)

lemma fst_and_then:
  "fst (and_then m f) = (case fst m of Inl e \<Rightarrow> Inl e | Inr a \<Rightarrow> fst (f a (snd m)))"
  by (cases m; cases "fst m") (auto simp: and_then_def)

lemma snd_try_finally: "snd (try_finally rw fin) = snd (fin (snd rw))"
  by (cases "fin (snd rw)"; cases "fst (fin (snd rw))") (auto simp: try_finally_def)

lemma fst_try_finally:
  "fst (try_finally rw fin) = (case fst (fin (snd rw)) of Inl e \<Rightarrow> Inl e | Inr u \<Rightarrow> fst rw)"
  by (cases "fin (snd rw)"; cases "fst (fin (snd rw))") (auto simp: try_finally_def)

lemma uploads_os [simp]:
  "uploads (print s w) = uploads w"
  "uploads (snd (os_makedirs s w)) = uploads w"
  "uploads (snd (open_w s w)) = uploads w"
  "uploads (f_write p s w) = uploads w"
  "uploads (snd (os_remove s w)) = uploads w"
  by (simp_all add: print_def os_makedirs_def open_w_def f_write_def os_remove_def
               split: prod.splits sum.splits option.splits node.splits)

lemma uploads_dump_except [simp]: "uploads (snd (dump_except rw)) = uploads (snd rw)"
  by (cases rw; cases "fst rw") (auto simp: dump_except_def split: exc.splits)

lemma uploads_create_db_dump [simp]:
  "uploads (snd (create_db_dump ext self db w)) = uploads w"
  by (simp add: create_db_dump_def snd_and_then snd_try_finally dump_finally_def dump_try_def
                subprocess_run_def Let_def
           split: sum.splits dump_outcome.splits)

lemma uploads_tar_add [simp]: "uploads (snd (tar_add ext tar n a w)) = uploads w"
  by (simp add: tar_add_def split: option.splits)

lemma uploads_add_targets [simp]: "uploads (snd (add_targets ext tar mnt ts w)) = uploads w"
  by (induction ts arbitrary: w) (simp_all add: snd_and_then Let_def split: sum.splits)

lemma uploads_archive_steps [simp]:
  "uploads (snd (tarfile_open nm w)) = uploads w"
  "uploads (snd (add_dump ext tar d w)) = uploads w"
  "uploads (snd (tar_close ext tar w)) = uploads w"
  by (simp_all add: tarfile_open_def add_dump_def tar_close_def snd_and_then
               split: sum.splits option.splits)

lemma uploads_create_archive [simp]:
  "uploads (snd (create_archive ext self ts d w)) = uploads w"
  by (simp add: create_archive_def snd_and_then Let_def split: sum.splits)

lemma uploads_send [simp]:
  "uploads (snd (send_success ext n a s w)) = uploads w"
  "uploads (snd (send_error ext n m w)) = uploads w"
  by (simp_all add: send_success_def send_error_def should_send_def send_def Let_def print_def
               split: option.splits)

lemma uploads_cleanup_loop [simp]: "uploads (cleanup_loop d ns w) = uploads w"
  by (induction ns arbitrary: w) simp_all

lemma uploads_cleanup [simp]: "uploads (snd (cleanup self w)) = uploads w"
  by (simp add: cleanup_def Let_def split: sum.splits)

lemma uploads_upload_to_s3:
  "\<exists>us. uploads (snd (upload_to_s3 ext file c w)) = uploads w @ us
        \<and> (\<forall>u \<in> set us. up_bucket u = bucket_name c)"
  by (simp add: upload_to_s3_def Let_def split: option.splits)

lemma os_path_exists_cong:
  "fs w' = fs w \<Longrightarrow> cwd w' = cwd w \<Longrightarrow> os_path_exists s w' = os_path_exists s w"
  by (simp add: os_path_exists_def split: sum.splits)

lemma os_path_exists_print [simp]: "os_path_exists s (print m w) = os_path_exists s w"
  by (rule os_path_exists_cong) (simp_all add: print_def)

lemma and_then_assoc:
  "and_then (and_then m f) g = and_then m (\<lambda>a w. and_then (f a w) g)"
  by (cases m; cases "fst m") (auto simp: and_then_def)

lemma run_try_stages:
  "run_try ext self w =
     and_then (run_stages ext self w)
       (\<lambda>a w4. send_success ext (notifier self) (name a) (size_mb a) w4)"
  by (simp add: run_try_def run_stages_def and_then_assoc)

lemma uploads_run_stages:
  "\<exists>us. uploads (snd (run_stages ext self w)) = uploads w @ us
        \<and> (\<forall>u \<in> set us. up_bucket u = bucket_name (s3 (config self)))"
proof -
  obtain r1 w1 where s1: "os_makedirs (temp_dir self) w = (r1, w1)"
    by (cases "os_makedirs (temp_dir self) w") auto
  have u1: "uploads w1 = uploads w" using uploads_os(2)[of "temp_dir self" w] s1 by simp
  obtain r2 w2 where s2: "create_db_dump ext self (database (config self)) w1 = (r2, w2)"
    by (cases "create_db_dump ext self (database (config self)) w1") auto
  have u2: "uploads w2 = uploads w"
    using uploads_create_db_dump[of ext self "database (config self)" w1] s2 u1 by simp
  show ?thesis
  proof (cases r1)
    case (Inl e)
    with s1 u1 show ?thesis by (simp add: run_stages_def)
  next
    case r1: (Inr x1)
    show ?thesis
    proof (cases r2)
      case (Inl e)
      with s1 s2 r1 u2 show ?thesis by (simp add: run_stages_def)
    next
      case r2: (Inr d)
      obtain r3 w3 where s3: "create_archive ext self (targets (config self)) d w2 = (r3, w3)"
        by (cases "create_archive ext self (targets (config self)) d w2") auto
      have u3: "uploads w3 = uploads w"
        using uploads_create_archive[of ext self "targets (config self)" d w2] s3 u2 by simp
      show ?thesis
      proof (cases r3)
        case (Inl e)
        with s1 s2 s3 r1 r2 u3 show ?thesis by (simp add: run_stages_def)
      next
        case r3: (Inr a)
        obtain r4 w4 where s4: "upload_to_s3 ext a (s3 (config self)) w3 = (r4, w4)"
          by (cases "upload_to_s3 ext a (s3 (config self)) w3") auto
        have "snd (run_stages ext self w) = w4"
          using s1 s2 s3 s4 r1 r2 r3 by (cases r4) (simp_all add: run_stages_def)
        with uploads_upload_to_s3[of ext a "s3 (config self)" w3] s4 u3 show ?thesis by simp
      qed
    qed
  qed
qed

lemma uploads_run_except [simp]:
  "uploads (snd (run_except ext self rw)) = uploads (snd rw)"
  by (cases rw; cases "fst rw") (auto simp: run_except_def snd_and_then split: sum.splits)

lemma uploads_Run:
  "\<exists>us. uploads (snd (Run ext self w)) = uploads w @ us
        \<and> (\<forall>u \<in> set us. up_bucket u = bucket_name (s3 (config self)))"
  using uploads_run_stages[of ext self w]
  by (simp add: Run_def snd_try_finally run_try_stages snd_and_then split: sum.splits)

lemma Backuper_init_config:
  "Backuper_init ext cp tmp mnt w = (Inr self, w1)
   \<Longrightarrow> \<exists>c. load_config ext cp w = (Inr c, w1) \<and> config self = apply_overrides ext (backup c)"
  by (auto simp: Backuper_init_def and_then_eq_Inr Let_def)

lemma uploads_upload_to_s3_enabled:
  "S3Config.enabled c \<Longrightarrow> client_error ext = None
   \<Longrightarrow> uploads (snd (upload_to_s3 ext file c w))
       = uploads w @ [\<lparr>up_endpoint = endpoint c, up_region = region c,
                       up_access_key_id = environ ext ''AWS_ACCESS_KEY_ID'',
                       up_secret_access_key = environ ext ''AWS_SECRET_ACCESS_KEY'',
                       up_path = path file, up_bucket = bucket_name c, up_key = name file\<rparr>]"
  by (simp add: upload_to_s3_def Let_def print_def split: option.splits)

lemma upload_to_s3_Inr_enabled:
  "upload_to_s3 ext file c w = (Inr u, w') \<Longrightarrow> S3Config.enabled c \<Longrightarrow> client_error ext = None"
  by (auto simp: upload_to_s3_def Let_def split: option.splits if_splits)

lemma uploads_run_stages_Inr:
  assumes r: "run_stages ext self w = (Inr a, w4)" and en: "S3Config.enabled (s3 (config self))"
  shows "uploads w4 = uploads w @ [\<lparr>up_endpoint = endpoint (s3 (config self)),
                       up_region = region (s3 (config self)),
                       up_access_key_id = environ ext ''AWS_ACCESS_KEY_ID'',
                       up_secret_access_key = environ ext ''AWS_SECRET_ACCESS_KEY'',
                       up_path = path a, up_bucket = bucket_name (s3 (config self)), up_key = name a\<rparr>]"
proof -
  from r obtain u1 w1 d w2 a' w3 u4 where
    s1: "os_makedirs (temp_dir self) w = (Inr u1, w1)"
    and s2: "create_db_dump ext self (database (config self)) w1 = (Inr d, w2)"
    and s3: "create_archive ext self (targets (config self)) d w2 = (Inr a', w3)"
    and s4: "upload_to_s3 ext a' (s3 (config self)) w3 = (Inr u4, w4)" and aa: "a' = a"
    unfolding run_stages_def and_then_eq_Inr by auto
  have u3: "uploads w3 = uploads w"
    using uploads_os(2)[of "temp_dir self" w] uploads_create_db_dump[of ext self "database (config self)" w1]
      uploads_create_archive[of ext self "targets (config self)" d w2] s1 s2 s3 by simp
  from upload_to_s3_Inr_enabled[OF s4 en] have ce: "client_error ext = None" .
  from uploads_upload_to_s3_enabled[OF en ce, of a' w3] s4 u3 aa show ?thesis by simp
qed

lemma Run_Inr_stages:
  assumes "fst (Run ext self w) = Inr u"
  shows "\<exists>a w4. run_stages ext self w = (Inr a, w4)"
proof -
  obtain r w4 where x: "run_stages ext self w = (r, w4)" by (cases "run_stages ext self w") auto
  show ?thesis
  proof (cases r)
    case (Inr a)
    with x show ?thesis by simp
  next
    case (Inl e)
    have "isl (fst (run_except ext self (run_try ext self w)))"
      using x Inl by (simp add: run_try_stages run_except_def fst_and_then split: sum.splits)
    then have "isl (fst (Run ext self w))"
      by (simp add: Run_def fst_try_finally split: sum.splits)
    with assms show ?thesis by simp
  qed
qed

lemma uploads_Run_stages: "uploads (snd (Run ext self w)) = uploads (snd (run_stages ext self w))"
  by (simp add: Run_def snd_try_finally run_try_stages snd_and_then split: sum.splits)

section \<open>The archive stage\<close>

lemma os_path_abspath_cong:
  "cwd w' = cwd w \<Longrightarrow> os_path_abspath s w' = os_path_abspath s w"
  by (simp add: os_path_abspath_def os_getcwd_def)

lemma os_path_abspath_print [simp]: "os_path_abspath s (print m w) = os_path_abspath s w"
  by (rule os_path_abspath_cong) (simp add: print_def)



lemma tar_add_fs [simp]:
  "fs (snd (tar_add ext tar nm a w)) = fs w" "cwd (snd (tar_add ext tar nm a w)) = cwd w"
  by (simp_all add: tar_add_def split: option.splits)







lemma open_w_frame [simp]:
  "cwd (snd (open_w a w)) = cwd w" "stdout (snd (open_w a w)) = stdout w"
  "tar_members (snd (open_w a w)) = tar_members w"
  by (simp_all add: open_w_def split: sum.splits option.splits node.splits)











section \<open>The outcome of a run and the delivery of messages\<close>

text \<open>No stage before the notification depends on how a delivery ends.\<close>

lemma tar_add_post_error [simp]: "tar_add (ext\<lparr>post_error := e\<rparr>) = tar_add ext"
  by (rule ext)+ (simp add: tar_add_def)

lemma add_targets_post_error [simp]:
  "add_targets (ext\<lparr>post_error := e\<rparr>) tar mnt ts = add_targets ext tar mnt ts"
proof (induction ts)
  case Nil
  show ?case by (rule ext) simp
next
  case (Cons t ts)
  show ?case by (rule ext) (simp add: Let_def Cons)
qed

lemma create_db_dump_post_error [simp]:
  "create_db_dump (ext\<lparr>post_error := e\<rparr>) self db w = create_db_dump ext self db w"
  by (simp add: create_db_dump_def dump_try_def subprocess_run_def auth_content_def Let_def
           cong: if_cong option.case_cong dump_outcome.case_cong)

lemma add_dump_post_error [simp]: "add_dump (ext\<lparr>post_error := e\<rparr>) = add_dump ext"
  by (rule ext)+ (simp add: add_dump_def split: option.splits)

lemma tar_close_post_error [simp]: "tar_close (ext\<lparr>post_error := e\<rparr>) = tar_close ext"
  by (rule ext)+ (simp add: tar_close_def Let_def cong: option.case_cong)

lemma create_archive_post_error [simp]:
  "create_archive (ext\<lparr>post_error := e\<rparr>) self ts d w = create_archive ext self ts d w"
  by (simp add: create_archive_def Let_def)

lemma upload_to_s3_post_error [simp]:
  "upload_to_s3 (ext\<lparr>post_error := e\<rparr>) a c w = upload_to_s3 ext a c w"
  by (simp add: upload_to_s3_def Let_def cong: if_cong option.case_cong)

lemma run_stages_post_error [simp]:
  "run_stages (ext\<lparr>post_error := e\<rparr>) self w = run_stages ext self w"
  by (simp add: run_stages_def)

lemma Backuper_init_post_error [simp]:
  "Backuper_init (ext\<lparr>post_error := e\<rparr>) cp tmp mnt w = Backuper_init ext cp tmp mnt w"
  by (simp add: Backuper_init_def load_config_def apply_overrides_def TelegramNotifier_init_def Let_def
           cong: if_cong option.case_cong sum.case_cong)

lemma os_remove_stdout:
  "os_remove s (w\<lparr>stdout := out\<rparr>) = (fst (os_remove s w), (snd (os_remove s w))\<lparr>stdout := out\<rparr>)"
  by (simp add: os_remove_def split: sum.splits option.splits node.splits)

lemma cleanup_loop_stdout:
  "cleanup_loop d ns (w\<lparr>stdout := out\<rparr>) = (cleanup_loop d ns w)\<lparr>stdout := out\<rparr>"
  by (induction ns arbitrary: w) (simp_all add: os_remove_stdout)

lemma cleanup_stdout:
  "\<exists>out'. cleanup self (w\<lparr>stdout := out\<rparr>)
      = (fst (cleanup self w), (snd (cleanup self w))\<lparr>stdout := out'\<rparr>)"
proof -
  let ?m = "''Cleanup: Removing temp files...''"
  have p: "print ?m (w\<lparr>stdout := out\<rparr>) = (print ?m w)\<lparr>stdout := out @ [?m]\<rparr>"
    by (simp add: print_def)
  have e: "os_path_exists s (v\<lparr>stdout := o'\<rparr>) = os_path_exists s v" for s v o'
    by (rule os_path_exists_cong) simp_all
  have l: "os_listdir s (v\<lparr>stdout := o'\<rparr>) = os_listdir s v" for s v o'
    by (simp add: os_listdir_def split: sum.splits option.splits node.splits)
  show ?thesis
    unfolding cleanup_def Let_def p e l
    by (auto simp: cleanup_loop_stdout split: sum.splits)
qed

lemma fst_send [simp]: "fst (send ext n t w) = Inr ()"
  by (simp add: send_def Let_def split: option.splits)

lemma send_post_error:
  "\<exists>out. snd (send (ext\<lparr>post_error := e\<rparr>) n t w) = (snd (send ext n t w))\<lparr>stdout := out\<rparr>"
  by (auto simp: send_def Let_def print_def split: option.splits)

lemma fst_send_success: "fst (send_success ext n a s w) = Inr ()"
  by (simp add: send_success_def split: prod.splits bool.splits)

lemma fst_send_error: "fst (send_error ext n m w) = Inr ()"
  by (simp add: send_error_def split: prod.splits bool.splits)

lemma send_success_post_error:
  "\<exists>out. snd (send_success (ext\<lparr>post_error := e\<rparr>) n a s w)
        = (snd (send_success ext n a s w))\<lparr>stdout := out\<rparr>"
proof (cases "fst (should_send n w)")
  case True
  then show ?thesis
    using send_post_error[where ext=ext and e=e and n=n and t="success_message a s" and w="snd (should_send n w)"]
    by (cases "should_send n w") (simp add: send_success_def)
next
  case False
  then have "snd (send_success (ext\<lparr>post_error := e\<rparr>) n a s w)
        = (snd (send_success ext n a s w))\<lparr>stdout := stdout (snd (send_success ext n a s w))\<rparr>"
    by (cases "should_send n w") (simp add: send_success_def)
  then show ?thesis by blast
qed

lemma send_error_post_error:
  "\<exists>out. snd (send_error (ext\<lparr>post_error := e\<rparr>) n m w)
        = (snd (send_error ext n m w))\<lparr>stdout := out\<rparr>"
proof (cases "fst (should_send n w)")
  case True
  then show ?thesis
    using send_post_error[where ext=ext and e=e and n=n and t="error_message_text m" and w="snd (should_send n w)"]
    by (cases "should_send n w") (simp add: send_error_def)
next
  case False
  then have "snd (send_error (ext\<lparr>post_error := e\<rparr>) n m w)
        = (snd (send_error ext n m w))\<lparr>stdout := stdout (snd (send_error ext n m w))\<rparr>"
    by (cases "should_send n w") (simp add: send_error_def)
  then show ?thesis by blast
qed

lemma run_handled_post_error:
  "\<exists>out. run_except (ext\<lparr>post_error := e\<rparr>) self (run_try (ext\<lparr>post_error := e\<rparr>) self w)
     = (fst (run_except ext self (run_try ext self w)),
        (snd (run_except ext self (run_try ext self w)))\<lparr>stdout := out\<rparr>)"
proof -
  obtain r wx where x: "run_stages ext self w = (r, wx)"
    by (cases "run_stages ext self w") auto
  then have x': "run_stages (ext\<lparr>post_error := e\<rparr>) self w = (r, wx)" by simp
  show ?thesis
  proof (cases r)
    case (Inl err)
    have t: "run_try ex self w = (Inl err, wx)" if "run_stages ex self w = (r, wx)" for ex
      using that Inl by (simp add: run_try_stages)
    show ?thesis
    proof (cases "is_Exception err")
      case True
      let ?w = "print (''CRITICAL ERROR: '' @ str err) wx"
      obtain out where o: "snd (send_error (ext\<lparr>post_error := e\<rparr>) (notifier self) (str err) ?w)
          = (snd (send_error ext (notifier self) (str err) ?w))\<lparr>stdout := out\<rparr>"
        using send_error_post_error by blast
      have re: "run_except ex self (Inl err, wx)
                = (Inl (SystemExit 1), snd (send_error ex (notifier self) (str err) ?w))" for ex
      proof -
        have "fst (send_error ex (notifier self) (str err) ?w) = Inr ()" by (rule fst_send_error)
        then obtain b where "send_error ex (notifier self) (str err) ?w = (Inr (), b)"
          by (cases "send_error ex (notifier self) (str err) ?w") auto
        then show ?thesis using True by (simp add: run_except_def)
      qed
      show ?thesis unfolding t[OF x] t[OF x'] re using o by auto
    next
      case False
      have re: "run_except ex self (Inl err, wx) = (Inl err, wx)" for ex
        using False by (simp add: run_except_def)
      have "wx = wx\<lparr>stdout := stdout wx\<rparr>" by simp
      then show ?thesis unfolding t[OF x] t[OF x'] re by (metis fst_conv snd_conv)
    qed
  next
    case (Inr a)
    obtain out where o: "snd (send_success (ext\<lparr>post_error := e\<rparr>) (notifier self) (name a) (size_mb a) wx)
          = (snd (send_success ext (notifier self) (name a) (size_mb a) wx))\<lparr>stdout := out\<rparr>"
      using send_success_post_error by blast
    have t: "run_try ex self w = send_success ex (notifier self) (name a) (size_mb a) wx"
      if "run_stages ex self w = (r, wx)" for ex
      using that Inr by (simp add: run_try_stages)
    have re: "run_except ex self (send_success ex (notifier self) (name a) (size_mb a) wx)
          = (Inr (), snd (send_success ex (notifier self) (name a) (size_mb a) wx))" for ex
    proof -
      have "fst (send_success ex (notifier self) (name a) (size_mb a) wx) = Inr ()" by (rule fst_send_success)
      then obtain b where "send_success ex (notifier self) (name a) (size_mb a) wx = (Inr (), b)"
        by (cases "send_success ex (notifier self) (name a) (size_mb a) wx") auto
      then show ?thesis by (simp add: run_except_def)
    qed
    show ?thesis unfolding t[OF x] t[OF x'] re using o by auto
  qed
qed

lemma Run_post_error_world:
  "\<exists>out. Run (ext\<lparr>post_error := e\<rparr>) self w = (fst (Run ext self w), (snd (Run ext self w))\<lparr>stdout := out\<rparr>)"
proof -
  obtain out where o: "run_except (ext\<lparr>post_error := e\<rparr>) self (run_try (ext\<lparr>post_error := e\<rparr>) self w)
     = (fst (run_except ext self (run_try ext self w)),
        (snd (run_except ext self (run_try ext self w)))\<lparr>stdout := out\<rparr>)"
    using run_handled_post_error by blast
  obtain out' where c: "cleanup self ((snd (run_except ext self (run_try ext self w)))\<lparr>stdout := out\<rparr>)
      = (fst (cleanup self (snd (run_except ext self (run_try ext self w)))),
         (snd (cleanup self (snd (run_except ext self (run_try ext self w)))))\<lparr>stdout := out'\<rparr>)"
    using cleanup_stdout by blast
  have "Run (ext\<lparr>post_error := e\<rparr>) self w
        = (fst (Run ext self w), (snd (Run ext self w))\<lparr>stdout := out'\<rparr>)"
    unfolding Run_def o by (simp add: try_finally_def c split: prod.splits sum.splits)
  then show ?thesis by blast
qed

lemma Run_post_error: "fst (Run (ext\<lparr>post_error := e\<rparr>) self w) = fst (Run ext self w)"
  using Run_post_error_world[where ext=ext and e=e and self=self and w=w] by auto

section \<open>The claims\<close>

text \<open>
  Claim C1. A fatal stage failure is said to send one failure message with the error
  text before the process exits with a non-zero status. At a dump command that exits
  with status 2, with the notifier enabled and its token set, the run ends with
  \<open>SystemExit 1\<close>, makes no upload, and posts nothing: \<^verbatim>\<open>sys.exit(1)\<close> in the dump
  stage raises \<open>SystemExit\<close>, which the clause \<^verbatim>\<open>except Exception\<close> of \<^verbatim>\<open>Run\<close>
  does not catch, so \<^verbatim>\<open>send_error\<close> is never called.
\<close>

theorem dump_failure_sends_no_message:
  "(case Run fail_ext demo_self demo_world of
      (r, w) \<Rightarrow> r = Inl (SystemExit 1) \<and> uploads w = [] \<and> posts w = []
                \<and> stdout w = [''MySQL: Creating dump...'', ''MySQL Error: exit status 2'',
                              ''Cleanup: Removing temp files...''])"
  by code_simp

text \<open>
  Claim C4. With \<^verbatim>\<open>database.enabled\<close> false the dump stage returns \<open>None\<close> and leaves
  the world as it is (no credential file, no command, no dump file), and the body of
  \<^verbatim>\<open>Run\<close> goes on to the archive stage with no dump file.
\<close>

theorem disabled_database_skips_dump:
  assumes "\<not> DatabaseConfig.enabled (database (config self))"
  shows "create_db_dump ext self (database (config self)) w = (Inr None, w)
    \<and> run_try ext self w =
       and_then (os_makedirs (temp_dir self) w) (\<lambda>u w1.
       and_then (create_archive ext self (targets (config self)) None w1) (\<lambda>archive_file w3.
       and_then (upload_to_s3 ext archive_file (s3 (config self)) w3) (\<lambda>u w4.
         send_success ext (notifier self) (name archive_file) (size_mb archive_file) w4)))"
  using assms by (simp add: run_try_def create_db_dump_def)

theorem disabled_database_skips_dump_witness:
  "\<not> DatabaseConfig.enabled (database (config nodb_self))
   \<and> create_db_dump demo_ext nodb_self (database (config nodb_self)) demo_world
       = (Inr None, demo_world)"
proof -
  have h: "\<not> DatabaseConfig.enabled (database (config nodb_self))"
    by (simp add: nodb_self_def)
  from disabled_database_skips_dump[OF h, of demo_ext demo_world] h show ?thesis by simp
qed



text \<open>
  Claim C7, as stated: an override variable that is present replaces the value of the
  file. It fails when the variable is present and empty: the guard
  \<^verbatim>\<open>if os.environ.get("S3_BUCKET_NAME"):\<close> is false for the empty string and the bucket
  of the file stays.
\<close>

theorem empty_override_does_not_replace:
  "environ empty_override_ext ''S3_BUCKET_NAME'' = Some []
   \<and> bucket_name (s3 (apply_overrides empty_override_ext (backup demo_config))) = ''A''"
  by (simp add: empty_override_ext_def apply_overrides_def demo_config_def demo_ext_def demo_env_def)

text \<open>
  Claim C7, amended: each of the five override variables, when present with a non-empty
  value, replaces the value of the file, and when absent or empty leaves it. With such
  a value \<open>v\<close> for the bucket and the object built by the constructor, the upload stage
  with storage enabled and a client makes exactly one upload, to bucket \<open>v\<close>, of the
  file it is given; a run that succeeds with storage enabled has made exactly one
  upload, to \<open>v\<close>; and no run uploads to another bucket.
\<close>

theorem nonempty_override_replaces:
  "(environ ext ''S3_ENDPOINT'' = Some v \<and> v \<noteq> [] \<longrightarrow> endpoint (s3 (apply_overrides ext c)) = v)
   \<and> (environ ext ''S3_BUCKET_NAME'' = Some v \<and> v \<noteq> [] \<longrightarrow> bucket_name (s3 (apply_overrides ext c)) = v)
   \<and> (environ ext ''S3_REGION'' = Some v \<and> v \<noteq> [] \<longrightarrow> region (s3 (apply_overrides ext c)) = v)
   \<and> (environ ext ''TELEGRAM_CHAT_ID'' = Some v \<and> v \<noteq> []
        \<longrightarrow> chat_id (telegram (apply_overrides ext c)) = v)
   \<and> (environ ext ''DB_HOST'' = Some v \<and> v \<noteq> []
        \<longrightarrow> container_name (database (apply_overrides ext c)) = v)
   \<and> (environ ext ''S3_ENDPOINT'' = None \<or> environ ext ''S3_ENDPOINT'' = Some []
        \<longrightarrow> endpoint (s3 (apply_overrides ext c)) = endpoint (s3 c))
   \<and> (environ ext ''S3_BUCKET_NAME'' = None \<or> environ ext ''S3_BUCKET_NAME'' = Some []
        \<longrightarrow> bucket_name (s3 (apply_overrides ext c)) = bucket_name (s3 c))
   \<and> (environ ext ''S3_REGION'' = None \<or> environ ext ''S3_REGION'' = Some []
        \<longrightarrow> region (s3 (apply_overrides ext c)) = region (s3 c))
   \<and> (environ ext ''TELEGRAM_CHAT_ID'' = None \<or> environ ext ''TELEGRAM_CHAT_ID'' = Some []
        \<longrightarrow> chat_id (telegram (apply_overrides ext c)) = chat_id (telegram c))
   \<and> (environ ext ''DB_HOST'' = None \<or> environ ext ''DB_HOST'' = Some []
        \<longrightarrow> container_name (database (apply_overrides ext c)) = container_name (database c))
   \<and> (environ ext ''S3_BUCKET_NAME'' = Some v \<and> v \<noteq> []
        \<and> Backuper_init ext config_path tmp mnt w = (Inr self, w1)
        \<longrightarrow> (S3Config.enabled (s3 (config self)) \<and> client_error ext = None
               \<longrightarrow> (\<exists>u. uploads (snd (upload_to_s3 ext file (s3 (config self)) w3)) = uploads w3 @ [u]
                        \<and> up_bucket u = v \<and> up_path u = path file \<and> up_key u = name file))
          \<and> (fst (Run ext self w1) = Inr () \<and> S3Config.enabled (s3 (config self))
               \<longrightarrow> (\<exists>u. uploads (snd (Run ext self w1)) = uploads w1 @ [u] \<and> up_bucket u = v))
          \<and> (\<exists>us. uploads (snd (Run ext self w1)) = uploads w1 @ us
                   \<and> (\<forall>u \<in> set us. up_bucket u = v)))"
proof -
  have a1: "endpoint (s3 (apply_overrides ext c)) = v" if "environ ext ''S3_ENDPOINT'' = Some v \<and> v \<noteq> []"
    using that by (simp add: apply_overrides_def Let_def split: option.splits)
  have a2: "bucket_name (s3 (apply_overrides ext c)) = v"
    if "environ ext ''S3_BUCKET_NAME'' = Some v \<and> v \<noteq> []" for c
    using that by (simp add: apply_overrides_def Let_def split: option.splits)
  have a3: "region (s3 (apply_overrides ext c)) = v" if "environ ext ''S3_REGION'' = Some v \<and> v \<noteq> []"
    using that by (simp add: apply_overrides_def Let_def split: option.splits)
  have a4: "chat_id (telegram (apply_overrides ext c)) = v"
    if "environ ext ''TELEGRAM_CHAT_ID'' = Some v \<and> v \<noteq> []"
    using that by (simp add: apply_overrides_def Let_def split: option.splits)
  have a5: "container_name (database (apply_overrides ext c)) = v"
    if "environ ext ''DB_HOST'' = Some v \<and> v \<noteq> []"
    using that by (simp add: apply_overrides_def Let_def split: option.splits)
  have b1: "endpoint (s3 (apply_overrides ext c)) = endpoint (s3 c)"
    if "environ ext ''S3_ENDPOINT'' = None \<or> environ ext ''S3_ENDPOINT'' = Some []"
    using that by (auto simp: apply_overrides_def Let_def split: option.splits)
  have b2: "bucket_name (s3 (apply_overrides ext c)) = bucket_name (s3 c)"
    if "environ ext ''S3_BUCKET_NAME'' = None \<or> environ ext ''S3_BUCKET_NAME'' = Some []"
    using that by (auto simp: apply_overrides_def Let_def split: option.splits)
  have b3: "region (s3 (apply_overrides ext c)) = region (s3 c)"
    if "environ ext ''S3_REGION'' = None \<or> environ ext ''S3_REGION'' = Some []"
    using that by (auto simp: apply_overrides_def Let_def split: option.splits)
  have b4: "chat_id (telegram (apply_overrides ext c)) = chat_id (telegram c)"
    if "environ ext ''TELEGRAM_CHAT_ID'' = None \<or> environ ext ''TELEGRAM_CHAT_ID'' = Some []"
    using that by (auto simp: apply_overrides_def Let_def split: option.splits)
  have b5: "container_name (database (apply_overrides ext c)) = container_name (database c)"
    if "environ ext ''DB_HOST'' = None \<or> environ ext ''DB_HOST'' = Some []"
    using that by (auto simp: apply_overrides_def Let_def split: option.splits)
  have u: "(S3Config.enabled (s3 (config self)) \<and> client_error ext = None
               \<longrightarrow> (\<exists>u. uploads (snd (upload_to_s3 ext file (s3 (config self)) w3)) = uploads w3 @ [u]
                        \<and> up_bucket u = v \<and> up_path u = path file \<and> up_key u = name file))
          \<and> (fst (Run ext self w1) = Inr () \<and> S3Config.enabled (s3 (config self))
               \<longrightarrow> (\<exists>u. uploads (snd (Run ext self w1)) = uploads w1 @ [u] \<and> up_bucket u = v))
          \<and> (\<exists>us. uploads (snd (Run ext self w1)) = uploads w1 @ us
                   \<and> (\<forall>u \<in> set us. up_bucket u = v))"
    if h: "environ ext ''S3_BUCKET_NAME'' = Some v \<and> v \<noteq> []
        \<and> Backuper_init ext config_path tmp mnt w = (Inr self, w1)"
  proof -
    from h have i: "Backuper_init ext config_path tmp mnt w = (Inr self, w1)" by simp
    from Backuper_init_config[OF i] obtain c' :: Config
      where "config self = apply_overrides ext (backup c')" by blast
    with a2[of "backup c'"] h have bn: "bucket_name (s3 (config self)) = v" by simp
    have p1: "\<exists>u. uploads (snd (upload_to_s3 ext file (s3 (config self)) w3)) = uploads w3 @ [u]
                        \<and> up_bucket u = v \<and> up_path u = path file \<and> up_key u = name file"
      if "S3Config.enabled (s3 (config self)) \<and> client_error ext = None"
      using that uploads_upload_to_s3_enabled[of "s3 (config self)" ext "file" w3] bn by simp
    have p2: "\<exists>u. uploads (snd (Run ext self w1)) = uploads w1 @ [u] \<and> up_bucket u = v"
      if r: "fst (Run ext self w1) = Inr () \<and> S3Config.enabled (s3 (config self))"
    proof -
      from r Run_Inr_stages[of ext self w1 "()"] obtain a w4
        where s: "run_stages ext self w1 = (Inr a, w4)" by blast
      from uploads_run_stages_Inr[OF s] r s bn show ?thesis
        by (simp add: uploads_Run_stages)
    qed
    from uploads_Run[of ext self w1] bn
    have p3: "\<exists>us. uploads (snd (Run ext self w1)) = uploads w1 @ us \<and> (\<forall>u \<in> set us. up_bucket u = v)"
      by simp
    from p1 p2 p3 show ?thesis by blast
  qed
  from a1 a2[of c] a3 a4 a5 b1 b2 b3 b4 b5 u show ?thesis by blast
qed

theorem nonempty_override_replaces_witness:
  "environ override_ext ''S3_BUCKET_NAME'' = Some ''B'' \<and> ''B'' \<noteq> []
   \<and> (environ override_ext ''S3_REGION'' = None \<or> environ override_ext ''S3_REGION'' = Some [])
   \<and> Backuper_init override_ext CONFIG_PATH TEMP_DIR MOUNT_ROOT demo_world = (Inr override_self, demo_world)
   \<and> S3Config.enabled (s3 (config override_self)) \<and> client_error override_ext = None
   \<and> fst (Run override_ext override_self demo_world) = Inr ()
   \<and> bucket_name (s3 (apply_overrides override_ext (backup demo_config))) = ''B''
   \<and> region (s3 (apply_overrides override_ext (backup demo_config))) = region (s3 (backup demo_config))
   \<and> (\<exists>u. uploads (snd (upload_to_s3 override_ext demo_archive (s3 (config override_self)) demo_archived_world))
            = uploads demo_archived_world @ [u]
          \<and> up_bucket u = ''B'' \<and> up_path u = path demo_archive \<and> up_key u = name demo_archive)
   \<and> (\<exists>u. uploads (snd (Run override_ext override_self demo_world)) = uploads demo_world @ [u]
          \<and> up_bucket u = ''B'')"
proof -
  have e: "environ override_ext ''S3_BUCKET_NAME'' = Some ''B'' \<and> ''B'' \<noteq> []"
    by (simp add: override_ext_def)
  have g: "environ override_ext ''S3_REGION'' = None \<or> environ override_ext ''S3_REGION'' = Some []"
    by (simp add: override_ext_def demo_env_def)
  have i: "Backuper_init override_ext CONFIG_PATH TEMP_DIR MOUNT_ROOT demo_world = (Inr override_self, demo_world)"
    by code_simp
  have en: "S3Config.enabled (s3 (config override_self)) \<and> client_error override_ext = None"
    by code_simp
  have r: "fst (Run override_ext override_self demo_world) = Inr ()"
    by code_simp
  note t = nonempty_override_replaces[of override_ext "''B''" "backup demo_config" CONFIG_PATH TEMP_DIR
      MOUNT_ROOT demo_world override_self demo_world demo_archive demo_archived_world]
  from t e g i en r show ?thesis by blast
qed






text \<open>
  Claim C8. A notifier whose configuration is switched off returns at once and leaves
  the world as it is. One that is switched on, with no token in the environment (or an
  empty one), prints the warning and posts nothing; with a token it makes one POST. The
  call \<open>send\<close> always returns: a delivery that fails is printed, and the result of
  \<^verbatim>\<open>Run\<close>, the world it leaves except for what was printed, and the exit status of
  \<^verbatim>\<open>main\<close> are the same whatever the answer \<open>e\<close> of the delivery is.
\<close>

theorem notification_never_changes_outcome:
  "(\<not> TelegramConfig.enabled (TelegramNotifier.config n)
      \<longrightarrow> send_success ext n a s w = (Inr (), w) \<and> send_error ext n m w = (Inr (), w))
   \<and> (TelegramConfig.enabled cfg
        \<and> (environ ext ''TELEGRAM_BOT_TOKEN'' = None \<or> environ ext ''TELEGRAM_BOT_TOKEN'' = Some [])
      \<longrightarrow> send_success ext (TelegramNotifier_init ext cfg) a s w
            = (Inr (), print ''Warning: Telegram enabled in config, but TELEGRAM_BOT_TOKEN is missing.'' w)
        \<and> send_error ext (TelegramNotifier_init ext cfg) m w
            = (Inr (), print ''Warning: Telegram enabled in config, but TELEGRAM_BOT_TOKEN is missing.'' w)
        \<and> posts (print ''Warning: Telegram enabled in config, but TELEGRAM_BOT_TOKEN is missing.'' w)
            = posts w)
   \<and> (TelegramConfig.enabled (TelegramNotifier.config n) \<and> token n = Some tk \<and> tk \<noteq> []
      \<longrightarrow> send_success ext n a s w = send ext n (success_message a s) w
        \<and> send_error ext n m w = send ext n (error_message_text m) w
        \<and> posts (snd (send ext n t w))
            = posts w @ [\<lparr>post_url = ''https://api.telegram.org/bot'' @ tk @ ''/sendMessage'',
                          post_chat_id = chat_id (TelegramNotifier.config n), post_text = t,
                          post_parse_mode = ''HTML''\<rparr>])
   \<and> fst (send ext n t w) = Inr ()
   \<and> (post_error ext = Some err
      \<longrightarrow> stdout (snd (send ext n t w)) = stdout w @ [''Telegram Error: Failed to send message. '' @ err])
   \<and> (\<exists>out. Run (ext\<lparr>post_error := e\<rparr>) self w
             = (fst (Run ext self w), (snd (Run ext self w))\<lparr>stdout := out\<rparr>))
   \<and> exit_status (fst (main (ext\<lparr>post_error := e\<rparr>) w)) = exit_status (fst (main ext w))"
proof -
  let ?warn = "''Warning: Telegram enabled in config, but TELEGRAM_BOT_TOKEN is missing.''"
  have a: "send_success ext n a s w = (Inr (), w) \<and> send_error ext n m w = (Inr (), w)"
    if "\<not> TelegramConfig.enabled (TelegramNotifier.config n)"
    using that by (simp add: send_success_def send_error_def should_send_def)
  have b: "send_success ext (TelegramNotifier_init ext cfg) a s w = (Inr (), print ?warn w)
        \<and> send_error ext (TelegramNotifier_init ext cfg) m w = (Inr (), print ?warn w)
        \<and> posts (print ?warn w) = posts w"
    if "TelegramConfig.enabled cfg
        \<and> (environ ext ''TELEGRAM_BOT_TOKEN'' = None \<or> environ ext ''TELEGRAM_BOT_TOKEN'' = Some [])"
    using that
    by (auto simp: send_success_def send_error_def should_send_def TelegramNotifier_init_def print_def)
  have b': "send_success ext n a s w = send ext n (success_message a s) w
        \<and> send_error ext n m w = send ext n (error_message_text m) w
        \<and> posts (snd (send ext n t w))
            = posts w @ [\<lparr>post_url = ''https://api.telegram.org/bot'' @ tk @ ''/sendMessage'',
                          post_chat_id = chat_id (TelegramNotifier.config n), post_text = t,
                          post_parse_mode = ''HTML''\<rparr>]"
    if "TelegramConfig.enabled (TelegramNotifier.config n) \<and> token n = Some tk \<and> tk \<noteq> []"
    using that
    by (simp add: send_success_def send_error_def should_send_def send_def Let_def print_def
             split: option.splits)
  have c: "stdout (snd (send ext n t w)) = stdout w @ [''Telegram Error: Failed to send message. '' @ err]"
    if "post_error ext = Some err"
    using that by (simp add: send_def Let_def print_def)
  have d: "exit_status (fst (main (ext\<lparr>post_error := e\<rparr>) w)) = exit_status (fst (main ext w))"
    by (simp add: main_def fst_and_then Run_post_error split: sum.splits)
  from a b b' c d Run_post_error_world[where ext=ext and e=e and self=self and w=w] fst_send[of ext n t w]
  show ?thesis by blast
qed

theorem notification_never_changes_outcome_witness:
  "\<not> TelegramConfig.enabled (TelegramNotifier.config quiet_notifier)
   \<and> send_error demo_ext quiet_notifier ''boom'' demo_world = (Inr (), demo_world)
   \<and> TelegramConfig.enabled (telegram (backup demo_config))
   \<and> environ no_token_ext ''TELEGRAM_BOT_TOKEN'' = None
   \<and> send_error no_token_ext (TelegramNotifier_init no_token_ext (telegram (backup demo_config))) ''boom'' demo_world
       = (Inr (), print ''Warning: Telegram enabled in config, but TELEGRAM_BOT_TOKEN is missing.'' demo_world)
   \<and> TelegramConfig.enabled (TelegramNotifier.config (notifier demo_self))
   \<and> token (notifier demo_self) = Some ''tok'' \<and> ''tok'' \<noteq> []
   \<and> send_error demo_ext (notifier demo_self) ''boom'' demo_world
       = send demo_ext (notifier demo_self) (error_message_text ''boom'') demo_world
   \<and> post_error (demo_ext\<lparr>post_error := Some ''timeout''\<rparr>) = Some ''timeout''
   \<and> stdout (snd (send (demo_ext\<lparr>post_error := Some ''timeout''\<rparr>) (notifier demo_self) ''text'' demo_world))
       = stdout demo_world @ [''Telegram Error: Failed to send message. '' @ ''timeout'']
   \<and> fst (Run demo_ext demo_self demo_world) = Inr ()
   \<and> fst (Run (demo_ext\<lparr>post_error := Some ''timeout''\<rparr>) demo_self demo_world) = Inr ()"
proof -
  have h1: "\<not> TelegramConfig.enabled (TelegramNotifier.config quiet_notifier)"
    by (simp add: quiet_notifier_def TelegramNotifier_init_def)
  have h2: "TelegramConfig.enabled (telegram (backup demo_config))
            \<and> environ no_token_ext ''TELEGRAM_BOT_TOKEN'' = None"
    by (simp add: demo_config_def no_token_ext_def)
  have h2': "TelegramConfig.enabled (TelegramNotifier.config (notifier demo_self))
     \<and> token (notifier demo_self) = Some ''tok'' \<and> ''tok'' \<noteq> []"
    by code_simp
  have h3: "post_error (demo_ext\<lparr>post_error := Some ''timeout''\<rparr>) = Some ''timeout''" by simp
  have h4: "fst (Run demo_ext demo_self demo_world) = Inr ()" by code_simp
  note t1 = notification_never_changes_outcome[where n=quiet_notifier and ext=demo_ext and w=demo_world
      and m="''boom''", THEN conjunct1]
  note t2 = notification_never_changes_outcome[where cfg="telegram (backup demo_config)"
      and ext=no_token_ext and w=demo_world and m="''boom''", THEN conjunct2, THEN conjunct1]
  note t2' = notification_never_changes_outcome[where n="notifier demo_self" and tk="''tok''"
      and ext=demo_ext and w=demo_world and m="''boom''", THEN conjunct2, THEN conjunct2, THEN conjunct1]
  note t3 = notification_never_changes_outcome[where ext="demo_ext\<lparr>post_error := Some ''timeout''\<rparr>"
      and w=demo_world and n="notifier demo_self" and t="''text''" and err="''timeout''",
      THEN conjunct2, THEN conjunct2, THEN conjunct2, THEN conjunct2, THEN conjunct1]
  note t4 = notification_never_changes_outcome[where ext=demo_ext and e="Some ''timeout''"
      and self=demo_self and w=demo_world,
      THEN conjunct2, THEN conjunct2, THEN conjunct2, THEN conjunct2, THEN conjunct2, THEN conjunct1]
  from t4 h4 have h5: "fst (Run (demo_ext\<lparr>post_error := Some ''timeout''\<rparr>) demo_self demo_world) = Inr ()"
    by auto
  from t1 h1 t2 h2 t2' h2' t3 h3 h4 h5 show ?thesis by blast
qed

end
